theory Spec2Isabelle
  imports Main "HOL-Library.AList" "HOL-Library.Sublist"
begin

section \<open>The wheel build orchestrator (scripts/windows_build_wheels.py)\<close>

text \<open>
  The script is sequential glue around four pieces of process-wide state: the
  environment table \<open>os.environ\<close>, the current working directory, the file
  system, and the external programs it starts. The embedding threads one
  \<open>world\<close> record through every operation and returns Python exceptions as
  values: an operation has type \<open>world \<Rightarrow> (exn + 'a) \<times> world\<close>, with
  \<open>Inl\<close> the exception that was raised and the world as it was left.

  Left out of the model: what the script prints, file permissions and
  symbolic links, and a program that cannot be started at all (a program
  started always ends with an exit status).
\<close>

subsection \<open>Exceptions\<close>

text \<open>
  An error of the operating system is an \<open>OSError\<close> with its \<open>errno\<close>
  (\<open>FileExistsError\<close> is \<open>OSError EEXIST\<close>, and so on). The
  \<open>FileNotFoundError\<close> that the script raises itself carries a message and
  no \<open>errno\<close>, and is kept apart.
\<close>

datatype errno = EEXIST | ENOENT | ENOTDIR | EACCES

type_synonym path = "string list"

datatype exn =
    OSError errno
  | FileNotFoundError string
  | CalledProcessError int "string list"
  | KeyError string
  | UnboundLocalError string
  | TypeError string
  | ValueError string
  | Exception string

subsection \<open>The world\<close>

text \<open>
  A file-system node is a regular file with its text or a directory with its
  entries in listing order. A \<open>path\<close> is the list of components from the
  root of the tree, where the drives are the first level.
\<close>

datatype node = File string | Dir "(string \<times> node) list"

type_synonym env = "(string \<times> string) list"

record call =
  call_args :: "string list"
  call_env :: env
  call_cwd :: path

record world =
  environ :: env
  cwd :: path
  fs :: node
  calls :: "call list"

text \<open>
  An operation on a state \<open>'s\<close> either raises or returns a value, and
  leaves a state; \<open>'a py\<close> is an operation on the world. (Operations on
  a state that also holds an object are needed for \<open>push_dir\<close> below.)
\<close>

type_synonym ('a, 's) stateful = "'s \<Rightarrow> (exn + 'a) \<times> 's"

type_synonym 'a py = "('a, world) stateful"

definition return :: "'a \<Rightarrow> ('a, 's) stateful" where
  "return x w = (Inr x, w)"

definition raise :: "exn \<Rightarrow> ('a, 's) stateful" where
  "raise e w = (Inl e, w)"

definition bind :: "('a, 's) stateful \<Rightarrow> ('a \<Rightarrow> ('b, 's) stateful) \<Rightarrow> ('b, 's) stateful" where
  "bind m k w = (case m w of (Inl e, w') \<Rightarrow> (Inl e, w') | (Inr x, w') \<Rightarrow> k x w')"

text \<open>
  \<open>try: body finally: handler\<close>. The handler runs on both exits; an exception
  of the handler replaces the one in flight.
\<close>

definition try_finally :: "('a, 's) stateful \<Rightarrow> (unit, 's) stateful \<Rightarrow> ('a, 's) stateful" where
  "try_finally body handler w =
     (case body w of (r, w1) \<Rightarrow>
        (case handler w1 of
           (Inl e, w2) \<Rightarrow> (Inl e, w2)
         | (Inr u, w2) \<Rightarrow> (r, w2)))"

text \<open>
  \<open>with cm: body\<close> for a context manager written as a class: \<open>__enter__\<close>
  runs first; \<open>__exit__\<close> runs on both exits of the body and, returning
  \<open>None\<close> as both classes of the script do, never swallows the exception.
\<close>

definition with_class ::
  "('c, 's) stateful \<Rightarrow> ('c \<Rightarrow> (unit, 's) stateful) \<Rightarrow> ('a, 's) stateful \<Rightarrow> ('a, 's) stateful" where
  "with_class enter exit body = bind enter (\<lambda>c. try_finally body (exit c))"

text \<open>
  \<open>with cm: body\<close> for a generator wrapped by \<open>contextlib.contextmanager\<close>.
  \<open>__enter__\<close> runs the generator up to its \<open>yield\<close> and keeps the
  generator's locals (\<open>'s\<close>). When the body returns, \<open>__exit__\<close> resumes the
  generator after the \<open>yield\<close>. When the body raises, \<open>__exit__\<close> throws
  the exception into the generator at the \<open>yield\<close>: a generator whose
  \<open>yield\<close> stands outside any \<open>try\<close> lets it propagate at once, and the
  statements after the \<open>yield\<close> do not run.
\<close>

definition with_generator :: "'s py \<Rightarrow> ('s \<Rightarrow> unit py) \<Rightarrow> 'a py \<Rightarrow> 'a py" where
  "with_generator before_yield after_yield body =
     bind before_yield (\<lambda>s w.
       case body w of
         (Inl e, w1) \<Rightarrow> (Inl e, w1)
       | (Inr x, w1) \<Rightarrow>
           (case after_yield s w1 of
              (Inl e, w2) \<Rightarrow> (Inl e, w2)
            | (Inr u, w2) \<Rightarrow> (Inr x, w2)))"

subsection \<open>push_env\<close>

text \<open>
  \<open>os.environ\<close> is a dictionary: an association list in insertion order,
  where assigning to a present key replaces its value in place and assigning
  to an absent key appends it (\<open>AList.update\<close>), and \<open>del\<close> drops the key
  (\<open>AList.delete\<close>). Variable names are taken as the table stores them.
\<close>

definition push_env_change :: "string \<times> string option \<Rightarrow> env \<Rightarrow> env" where
  "push_env_change kv e =
     (case kv of
        (var, Some v) \<Rightarrow> AList.update var v e
      | (var, None) \<Rightarrow> (if var \<in> fst ` set e then AList.delete var e else e))"

definition push_env_before_yield :: "(string \<times> string option) list \<Rightarrow> env py" where
  "push_env_before_yield kwargs w =
     (let saved_env = environ w
      in (Inr saved_env, w\<lparr>environ := fold push_env_change kwargs (environ w)\<rparr>))"

definition push_env_after_yield :: "env \<Rightarrow> unit py" where
  "push_env_after_yield saved_env w =
     (let cleared = w\<lparr>environ := []\<rparr>
      in (Inr (), cleared\<lparr>environ :=
            fold (\<lambda>(saved_var, saved_value). AList.update saved_var saved_value)
              saved_env (environ cleared)\<rparr>))"

definition push_env :: "(string \<times> string option) list \<Rightarrow> 'a py \<Rightarrow> 'a py" where
  "push_env kwargs body =
     with_generator (push_env_before_yield kwargs) push_env_after_yield body"

subsection \<open>Paths\<close>

text \<open>
  Windows accepts both separators. A path string is resolved to the list of
  its components: a string that starts with a separator or a drive letter is
  taken from the root of the tree, any other from the working directory;
  empty components and \<open>.\<close> are dropped and \<open>..\<close> steps back.
  Path names are not empty: the script passes none that is (\<open>push_dir\<close>
  skips an empty \<open>directory\<close>), and the empty string, which the
  operating system refuses, is read here like \<open>.\<close>.
\<close>

definition sep :: string where
  "sep = [CHR 0x5C]"

definition seps :: "char set" where
  "seps = {CHR 0x5C, CHR ''/''}"

fun split_seps :: "string \<Rightarrow> string list" where
  "split_seps [] = [[]]"
| "split_seps (c # cs) =
     (if c \<in> seps then [] # split_seps cs
      else (case split_seps cs of x # xs \<Rightarrow> (c # x) # xs | [] \<Rightarrow> [[c]]))"

definition splitdrive :: "string \<Rightarrow> string \<times> string" where
  "splitdrive p = (if 2 \<le> length p \<and> p ! 1 = CHR '':'' then (take 2 p, drop 2 p) else ([], p))"

definition isabs :: "string \<Rightarrow> bool" where
  "isabs s = (fst (splitdrive s) \<noteq> [] \<or> (s \<noteq> [] \<and> hd s \<in> seps))"

definition resolve_step :: "string \<Rightarrow> path \<Rightarrow> path" where
  "resolve_step c acc =
     (if c = [] \<or> c = ''.'' then acc
      else if c = ''..'' then butlast acc
      else acc @ [c])"

definition resolve :: "path \<Rightarrow> string \<Rightarrow> path" where
  "resolve wd s = fold resolve_step (split_seps s) (if isabs s then [] else wd)"

text \<open>
  \<open>os.path.join\<close> of the Windows flavour, for drive-letter paths (network
  shares are left out): a component that starts with a separator, or names
  another drive, starts the result afresh; any other is appended, after a
  backslash unless the result so far is empty or ends with a separator.
\<close>

definition lower :: "string \<Rightarrow> string" where
  "lower s = map (\<lambda>c. if of_char (CHR ''A'') \<le> (of_char c :: nat) \<and> (of_char c :: nat) \<le> of_char (CHR ''Z'')
                       then char_of (of_char c + (32 :: nat)) else c) s"

definition join_step :: "string \<Rightarrow> string \<times> string \<Rightarrow> string \<times> string" where
  "join_step p r =
     (case (splitdrive p, r) of ((p_drive, p_path), (result_drive, result_path)) \<Rightarrow>
        if p_path \<noteq> [] \<and> hd p_path \<in> seps
        then (if p_drive \<noteq> [] \<or> result_drive = [] then (p_drive, p_path)
              else (result_drive, p_path))
        else if p_drive \<noteq> [] \<and> p_drive \<noteq> result_drive \<and> lower p_drive \<noteq> lower result_drive
        then (p_drive, p_path)
        else (if p_drive \<noteq> [] \<and> p_drive \<noteq> result_drive then p_drive else result_drive,
              (if result_path \<noteq> [] \<and> last result_path \<notin> seps
               then result_path @ sep else result_path) @ p_path))"

definition os_path_join :: "string \<Rightarrow> string list \<Rightarrow> string" where
  "os_path_join p paths = (case fold join_step paths (splitdrive p) of (d, r) \<Rightarrow> d @ r)"

text \<open>
  \<open>os.path.splitext\<close>: the extension starts at the last dot of the last
  component, unless only dots precede it there.
\<close>

definition splitext :: "string \<Rightarrow> string \<times> string" where
  "splitext p =
     (let name = rev (takeWhile (\<lambda>c. c \<notin> seps) (rev p));
          ext = rev (takeWhile (\<lambda>c. c \<noteq> CHR ''.'') (rev name))
      in if CHR ''.'' \<in> set name
            \<and> list_ex (\<lambda>c. c \<noteq> CHR ''.'') (take (length name - length ext - 1) name)
         then (take (length p - length ext - 1) p, CHR ''.'' # ext)
         else (p, []))"

subsection \<open>The file system\<close>

primrec lookup :: "path \<Rightarrow> node \<Rightarrow> node option" where
  "lookup [] n = Some n"
| "lookup (x # xs) n =
     (case n of
        File s \<Rightarrow> None
      | Dir es \<Rightarrow> (case map_of es x of None \<Rightarrow> None | Some c \<Rightarrow> lookup xs c))"

primrec alter :: "path \<Rightarrow> (node \<Rightarrow> node) \<Rightarrow> node \<Rightarrow> node" where
  "alter [] f n = f n"
| "alter (x # xs) f n =
     (case n of
        File s \<Rightarrow> File s
      | Dir es \<Rightarrow> Dir (AList.map_entry x (alter xs f) es))"

definition is_dir :: "node option \<Rightarrow> bool" where
  "is_dir r = (case r of Some (Dir es) \<Rightarrow> True | _ \<Rightarrow> False)"

definition is_file :: "node option \<Rightarrow> bool" where
  "is_file r = (case r of Some (File s) \<Rightarrow> True | _ \<Rightarrow> False)"

definition drop_entry :: "string \<Rightarrow> node \<Rightarrow> node" where
  "drop_entry k n = (case n of File s \<Rightarrow> File s | Dir es \<Rightarrow> Dir (AList.delete k es))"

text \<open>
  The system calls: each either fails and changes nothing, or succeeds. The
  error numbers are those of Windows, where a path that leads through a
  regular file is reported as not found.
\<close>

definition mkdir_node :: "path \<Rightarrow> node \<Rightarrow> exn + node" where
  "mkdir_node p t =
     (if p = [] then Inl (OSError EEXIST)
      else (case lookup (butlast p) t of
              None \<Rightarrow> Inl (OSError ENOENT)
            | Some (File s) \<Rightarrow> Inl (OSError ENOENT)
            | Some (Dir es) \<Rightarrow>
                if last p \<in> fst ` set es then Inl (OSError EEXIST)
                else Inr (alter (butlast p) (\<lambda>d. Dir (es @ [(last p, Dir [])])) t)))"

definition remove_node :: "path \<Rightarrow> node \<Rightarrow> exn + node" where
  "remove_node p t =
     (case lookup p t of
        None \<Rightarrow> Inl (OSError ENOENT)
      | Some (Dir es) \<Rightarrow> Inl (OSError EACCES)
      | Some (File s) \<Rightarrow>
          if p = [] then Inl (OSError EACCES)
          else Inr (alter (butlast p) (drop_entry (last p)) t))"

definition rmtree_node :: "path \<Rightarrow> node \<Rightarrow> exn + node" where
  "rmtree_node p t =
     (case lookup p t of
        None \<Rightarrow> Inl (OSError ENOENT)
      | Some (File s) \<Rightarrow> Inl (OSError ENOTDIR)
      | Some (Dir es) \<Rightarrow>
          if p = [] then Inl (OSError EACCES)
          else Inr (alter (butlast p) (drop_entry (last p)) t))"

definition write_node :: "path \<Rightarrow> string \<Rightarrow> node \<Rightarrow> exn + node" where
  "write_node p s t =
     (if p = [] then Inl (OSError EACCES)
      else (case lookup (butlast p) t of
              None \<Rightarrow> Inl (OSError ENOENT)
            | Some (File s') \<Rightarrow> Inl (OSError ENOENT)
            | Some (Dir es) \<Rightarrow>
                if is_dir (map_of es (last p)) then Inl (OSError EACCES)
                else Inr (alter (butlast p) (\<lambda>d. Dir (AList.update (last p) (File s) es)) t)))"

definition read_node :: "path \<Rightarrow> node \<Rightarrow> exn + string" where
  "read_node p t =
     (case lookup p t of
        None \<Rightarrow> Inl (OSError ENOENT)
      | Some (Dir es) \<Rightarrow> Inl (OSError EACCES)
      | Some (File s) \<Rightarrow> Inr s)"

definition change_fs :: "(node \<Rightarrow> exn + node) \<Rightarrow> unit py" where
  "change_fs f w = (case f (fs w) of Inl e \<Rightarrow> (Inl e, w) | Inr t \<Rightarrow> (Inr (), w\<lparr>fs := t\<rparr>))"

definition located :: "string \<Rightarrow> world \<Rightarrow> path" where
  "located name w = resolve (cwd w) name"

definition os_path_exists :: "string \<Rightarrow> world \<Rightarrow> bool" where
  "os_path_exists name w = (lookup (located name w) (fs w) \<noteq> None)"

definition os_path_isdir :: "string \<Rightarrow> world \<Rightarrow> bool" where
  "os_path_isdir name w = is_dir (lookup (located name w) (fs w))"

definition os_path_isfile :: "string \<Rightarrow> world \<Rightarrow> bool" where
  "os_path_isfile name w = is_file (lookup (located name w) (fs w))"

definition os_mkdir :: "path \<Rightarrow> unit py" where
  "os_mkdir p = change_fs (mkdir_node p)"

definition os_remove :: "path \<Rightarrow> unit py" where
  "os_remove p = change_fs (remove_node p)"

definition shutil_rmtree :: "path \<Rightarrow> unit py" where
  "shutil_rmtree p = change_fs (rmtree_node p)"

text \<open>
  \<open>os.getcwd\<close> gives the working directory and \<open>os.chdir\<close> of what it
  gave leads back there, so the model keeps the saved directory as a path.
\<close>

definition os_chdir :: "path \<Rightarrow> unit py" where
  "os_chdir p w =
     (case lookup p (fs w) of
        None \<Rightarrow> (Inl (OSError ENOENT), w)
      | Some (File s) \<Rightarrow> (Inl (OSError ENOTDIR), w)
      | Some (Dir es) \<Rightarrow> (Inr (), w\<lparr>cwd := p\<rparr>))"

text \<open>
  \<open>os.makedirs(name)\<close>: when the parent of \<open>name\<close> is missing it is made
  first, by the same routine, and an "already exists" from there is ignored;
  then \<open>name\<close> itself is made with \<open>mkdir\<close>.
\<close>

function os_makedirs :: "path \<Rightarrow> unit py" where
  "os_makedirs name w =
     (if name \<noteq> [] \<and> lookup (butlast name) (fs w) = None
      then (case os_makedirs (butlast name) w of
              (Inl e, w1) \<Rightarrow> (if e = OSError EEXIST then os_mkdir name w1 else (Inl e, w1))
            | (Inr u, w1) \<Rightarrow> os_mkdir name w1)
      else os_mkdir name w)"
  by pat_completeness auto
termination
  by (relation "measure (\<lambda>(name, w). length name)") auto

declare os_makedirs.simps [simp del]

subsection \<open>mkdir_p\<close>

definition mkdir_p :: "string \<Rightarrow> unit py" where
  "mkdir_p name w =
     (case os_makedirs (located name w) w of
        (Inr u, w1) \<Rightarrow> (Inr (), w1)
      | (Inl exc, w1) \<Rightarrow>
          (case exc of
             OSError en \<Rightarrow>
               if en = EEXIST \<and> os_path_isdir name w1 then (Inr (), w1)
               else (Inl exc, w1)
           | _ \<Rightarrow> (Inl exc, w1)))"

subsection \<open>push_dir\<close>

text \<open>
  A \<open>push_dir\<close> object has three attributes. \<open>__enter__\<close> stores the
  working directory in the attribute \<open>old_cwd\<close> of the object itself,
  before anything else, and \<open>__exit__\<close> reads it from there. Whoever holds
  a reference to the object works on the same attributes: the decorator form
  (\<open>ContextDecorator.__call__\<close>) wraps every call of the decorated function
  in \<open>with self:\<close>, on the one object, so a recursive call enters the
  object again inside its own scope, and so does a \<open>with\<close> on an object
  written inside a \<open>with\<close> on the same object. The methods are therefore
  operations on the object together with the world, and so is the body of a
  scope; \<open>outside\<close> is an operation that holds no reference to the object.
\<close>

record push_dir =
  directory :: "string option"
  make_directory :: bool
  old_cwd :: "path option"

type_synonym 'a push_dir_op = "('a, push_dir \<times> world) stateful"

definition push_dir_init :: "string option \<Rightarrow> bool \<Rightarrow> push_dir" where
  "push_dir_init d m = \<lparr>directory = d, make_directory = m, old_cwd = None\<rparr>"

definition outside :: "'a py \<Rightarrow> 'a push_dir_op" where
  "outside m s = (case s of (self, w) \<Rightarrow> (case m w of (r, w1) \<Rightarrow> (r, (self, w1))))"

definition push_dir_enter :: "unit push_dir_op" where
  "push_dir_enter s =
     (case s of (self, w) \<Rightarrow>
        (let self1 = self\<lparr>old_cwd := Some (cwd w)\<rparr>
         in case directory self1 of
              None \<Rightarrow> (Inr (), (self1, w))
            | Some d \<Rightarrow>
                if d = [] then (Inr (), (self1, w))
                else outside
                       (bind (if make_directory self1 then mkdir_p d else return ())
                          (\<lambda>u w1. os_chdir (located d w1) w1))
                       (self1, w)))"

definition push_dir_exit :: "unit push_dir_op" where
  "push_dir_exit s =
     (case s of (self, w) \<Rightarrow>
        outside
          (case old_cwd self of
             None \<Rightarrow> raise (TypeError ''chdir: path should be string, not NoneType'')
           | Some p \<Rightarrow> os_chdir p)
          (self, w))"

text \<open>
  \<open>with self: body\<close> on an object; the decorator, whose \<open>inner\<close> is
  \<open>with self: return func(*args, **kwds)\<close>; and the statement
  \<open>with push_dir(directory=d, make_directory=m): body\<close> as the script
  writes it, on a new object that the body has no name for.
\<close>

definition with_self :: "'a push_dir_op \<Rightarrow> 'a push_dir_op" where
  "with_self body = with_class push_dir_enter (\<lambda>u. push_dir_exit) body"

definition push_dir_call :: "('x \<Rightarrow> 'a push_dir_op) \<Rightarrow> 'x \<Rightarrow> 'a push_dir_op" where
  "push_dir_call func args = with_self (func args)"

definition with_push_dir :: "string option \<Rightarrow> bool \<Rightarrow> 'a py \<Rightarrow> 'a py" where
  "with_push_dir d m body w =
     (case with_self (outside body) (push_dir_init d m, w) of (r, (self, w1)) \<Rightarrow> (r, w1))"

subsection \<open>External programs\<close>

text \<open>
  What lies outside the script is gathered in a \<open>host\<close>: the two directory
  constants the module computes from its own location when it is loaded, the
  behaviour of the programs it starts (a program sees its arguments, the
  environment and the working directory, may change the file system, and ends
  with an exit status and its standard output), the JSON decoder, and the
  name that \<open>tempfile\<close> picks. Every program started is logged in
  \<open>calls\<close> with the arguments, environment and directory it was given.
\<close>

record host =
  SCRIPT_DIR :: string
  ROOT_DIR :: string
  run :: "string list \<Rightarrow> env \<Rightarrow> path \<Rightarrow> node \<Rightarrow> int \<times> string \<times> node"
  json_loads :: "string \<Rightarrow> exn + (string \<times> string option) list"
  temp_name :: string

definition STANDALONE_DIR :: "host \<Rightarrow> string" where
  "STANDALONE_DIR h = os_path_join (ROOT_DIR h) [''standalone-build'']"

definition started :: "host \<Rightarrow> string list \<Rightarrow> world \<Rightarrow> (int \<times> string) \<times> world" where
  "started h args w =
     (case run h args (environ w) (cwd w) (fs w) of
        (status, out, t) \<Rightarrow>
          ((status, out),
           w\<lparr>fs := t,
             calls := calls w @ [\<lparr>call_args = args, call_env = environ w, call_cwd = cwd w\<rparr>]\<rparr>))"

definition check_call :: "host \<Rightarrow> string list \<Rightarrow> unit py" where
  "check_call h args w =
     (case started h args w of
        ((status, out), w1) \<Rightarrow>
          if status = 0 then (Inr (), w1) else (Inl (CalledProcessError status args), w1))"

definition check_output :: "host \<Rightarrow> string list \<Rightarrow> string py" where
  "check_output h args w =
     (case started h args w of
        ((status, out), w1) \<Rightarrow>
          if status = 0 then (Inr out, w1) else (Inl (CalledProcessError status args), w1))"

fun for_each :: "'a list \<Rightarrow> ('a \<Rightarrow> unit py) \<Rightarrow> unit py" where
  "for_each [] body = return ()"
| "for_each (x # xs) body = bind (body x) (\<lambda>u. for_each xs body)"

subsection \<open>pip_install and prepare_build_env\<close>

definition pip_install :: "host \<Rightarrow> string \<Rightarrow> string \<Rightarrow> unit py" where
  "pip_install h python_dir package =
     (let pip = os_path_join python_dir [''Scripts'', ''pip.exe'']
      in check_call h [pip, ''install'', package])"

definition prepare_build_env :: "host \<Rightarrow> string \<Rightarrow> unit py" where
  "prepare_build_env h python_version w =
     (let python_dir = ''C:/Python'' @ python_version
      in if \<not> os_path_exists python_dir w
         then raise (FileNotFoundError
                (''Aborting. python_dir ['' @ python_dir @ ''] does not exist.'')) w
         else
           (let venv = os_path_join python_dir [''Scripts'', ''virtualenv.exe''];
                venv_dir = os_path_join (ROOT_DIR h) [''venv-'' @ python_version]
            in bind (\<lambda>w1. if \<not> os_path_exists venv_dir w1
                          then check_call h [venv, venv_dir] w1
                          else return () w1)
                 (\<lambda>u. pip_install h venv_dir ''scikit-build'') w))"

subsection \<open>build_wheel\<close>

definition venv_dir :: "host \<Rightarrow> string \<Rightarrow> string" where
  "venv_dir h python_version = os_path_join (ROOT_DIR h) [''venv-'' @ python_version]"

definition python_executable :: "host \<Rightarrow> string \<Rightarrow> string" where
  "python_executable h python_version =
     os_path_join (venv_dir h python_version) [''Scripts'', ''python.exe'']"

definition python_include_dir :: "host \<Rightarrow> string \<Rightarrow> string" where
  "python_include_dir h python_version = os_path_join (venv_dir h python_version) [''Include'']"

definition xy_ver :: "string \<Rightarrow> string" where
  "xy_ver python_version = takeWhile (\<lambda>c. c \<noteq> CHR ''-'') python_version"

definition python_library :: "string \<Rightarrow> string" where
  "python_library python_version =
     ''C:/Python'' @ python_version @ ''/libs/python'' @ xy_ver python_version @ ''.lib''"

definition pip :: "host \<Rightarrow> string \<Rightarrow> string" where
  "pip h python_version = os_path_join (venv_dir h python_version) [''Scripts'', ''pip.exe'']"

definition ninja_executable :: "host \<Rightarrow> string" where
  "ninja_executable h = os_path_join (ROOT_DIR h) [''venv-27-x64'', ''Scripts'', ''ninja.exe'']"

definition build_type :: string where
  "build_type = ''Release''"

definition source_path :: "host \<Rightarrow> string" where
  "source_path h = STANDALONE_DIR h @ ''/ITK-source''"

definition build_path :: "string \<Rightarrow> string" where
  "build_path python_version = ''C:/P/IPP/ITK-win_'' @ python_version"

definition setup_py_configure :: "host \<Rightarrow> string" where
  "setup_py_configure h = os_path_join (SCRIPT_DIR h) [''..'', ''setup_py_configure.py'']"

definition install_args :: "host \<Rightarrow> string \<Rightarrow> string list" where
  "install_args h python_version =
     [pip h python_version, ''install'',
      ''-r'', os_path_join (ROOT_DIR h) [''requirements-dev.txt'']]"

definition install_dependencies :: "host \<Rightarrow> string \<Rightarrow> unit py" where
  "install_dependencies h python_version = check_call h (install_args h python_version)"

definition clean_previous :: "string \<Rightarrow> unit py" where
  "clean_previous python_version w =
     (if os_path_exists (build_path python_version) w
      then shutil_rmtree (located (build_path python_version) w) w
      else return () w)"

text \<open>The branch \<open>if single_wheel:\<close>.\<close>

definition configure_args :: "host \<Rightarrow> string \<Rightarrow> string \<Rightarrow> string list" where
  "configure_args h python_version wheel_name =
     [python_executable h python_version, setup_py_configure h, wheel_name]"

definition clean_args :: "host \<Rightarrow> string \<Rightarrow> string list" where
  "clean_args h python_version = [python_executable h python_version, ''setup.py'', ''clean'']"

definition single_wheel_args :: "host \<Rightarrow> string \<Rightarrow> string list" where
  "single_wheel_args h python_version =
     [python_executable h python_version,
      ''setup.py'', ''bdist_wheel'',
      ''--build-type'', build_type, ''-G'', ''Ninja'',
      ''--'',
      ''-DCMAKE_MAKE_PROGRAM:FILEPATH='' @ ninja_executable h,
      ''-DITK_SOURCE_DIR:PATH='' @ source_path h,
      ''-DITK_BINARY_DIR:PATH='' @ build_path python_version,
      ''-DPYTHON_EXECUTABLE:FILEPATH='' @ python_executable h python_version,
      ''-DPYTHON_INCLUDE_DIR:PATH='' @ python_include_dir h python_version,
      ''-DPYTHON_LIBRARY:FILEPATH='' @ python_library python_version]"

definition build_single_wheel :: "host \<Rightarrow> string \<Rightarrow> unit py" where
  "build_single_wheel h python_version =
     bind (check_call h (configure_args h python_version ''itk''))
       (\<lambda>u. bind (check_call h (single_wheel_args h python_version))
         (\<lambda>u. check_call h (clean_args h python_version)))"

text \<open>
  The branch \<open>else:\<close>. First the \<open>try\<close> block that asks scikit-build for
  the generator's environment. If \<open>NamedTemporaryFile\<close> raises,
  \<open>script_file\<close> is not bound when the \<open>finally\<close> block reads it.
  Decoding the output is part of \<open>json_loads\<close>.
\<close>

definition helper_script :: string where
  "helper_script = concat (map (\<lambda>l. l @ [CHR 0x0A])
     [[],
      ''import json'',
      ''from skbuild.platform_specifics.windows import WindowsPlatform'',
      ''# Instantiate'',
      ''build_platform = WindowsPlatform()'',
      ''generator = build_platform.default_generators[0]'',
      ''assert generator.name == '' @ [CHR 0x22] @ ''Ninja'' @ [CHR 0x22],
      ''print(json.dumps(generator.env))''])"

definition named_temporary_file :: "host \<Rightarrow> string py" where
  "named_temporary_file h w =
     (if os_path_exists (temp_name h) w then (Inl (OSError EEXIST), w)
      else bind (change_fs (write_node (located (temp_name h) w) [])) (\<lambda>u. return (temp_name h)) w)"

definition file_write :: "string \<Rightarrow> string \<Rightarrow> unit py" where
  "file_write name text w = change_fs (write_node (located name w) text) w"

definition isspace :: "char \<Rightarrow> bool" where
  "isspace c = ((of_char c :: nat) \<in> {9, 10, 11, 12, 13, 28, 29, 30, 31, 32})"

definition strip :: "string \<Rightarrow> string" where
  "strip s = rev (dropWhile isspace (rev (dropWhile isspace s)))"

definition generator_env :: "host \<Rightarrow> string \<Rightarrow> (string \<times> string option) list py" where
  "generator_env h python_version w =
     (case named_temporary_file h w of
        (Inl e, w1) \<Rightarrow> (Inl (UnboundLocalError ''script_file''), w1)
      | (Inr script_file_name, w1) \<Rightarrow>
          try_finally
            (bind (file_write script_file_name helper_script)
               (\<lambda>u. bind (check_output h [python_executable h python_version, script_file_name])
                 (\<lambda>output. case json_loads h (strip output) of
                               Inl e \<Rightarrow> raise e
                             | Inr build_env \<Rightarrow> return build_env)))
            (\<lambda>w2. os_remove (located script_file_name w2) w2)
            w1)"

definition py_site_packages_path :: "host \<Rightarrow> string" where
  "py_site_packages_path h = os_path_join (SCRIPT_DIR h) [''..'', ''_skbuild'', ''cmake-install'']"

definition cmake_args :: "host \<Rightarrow> string \<Rightarrow> string list" where
  "cmake_args h python_version =
     [''cmake'',
      ''-DCMAKE_BUILD_TYPE:STRING='' @ build_type,
      ''-DITK_SOURCE_DIR:PATH='' @ source_path h,
      ''-DITK_BINARY_DIR:PATH='' @ build_path python_version,
      ''-DBUILD_TESTING:BOOL=OFF'',
      ''-DPYTHON_EXECUTABLE:FILEPATH='' @ python_executable h python_version,
      ''-DPYTHON_INCLUDE_DIR:PATH='' @ python_include_dir h python_version,
      ''-DPYTHON_LIBRARY:FILEPATH='' @ python_library python_version,
      ''-DWRAP_ITK_INSTALL_COMPONENT_IDENTIFIER:STRING=PythonWheel'',
      ''-DWRAP_ITK_INSTALL_COMPONENT_PER_MODULE:BOOL=ON'',
      ''-DPY_SITE_PACKAGES_PATH:PATH='' @ py_site_packages_path h,
      ''-DITK_LEGACY_SILENT:BOOL=ON'',
      ''-DITK_WRAP_PYTHON:BOOL=ON'',
      ''-DITK_WRAP_PYTHON_LEGACY:BOOL=OFF'',
      ''-G'', ''Ninja'',
      source_path h]"

definition build_itk_python :: "host \<Rightarrow> string \<Rightarrow> (string \<times> string option) list \<Rightarrow> unit py" where
  "build_itk_python h python_version build_env =
     with_push_dir (Some (build_path python_version)) True
       (push_env build_env
          (bind (check_call h (cmake_args h python_version))
             (\<lambda>u. check_call h [ninja_executable h])))"

text \<open>
  A file opened with \<open>open(name, "r")\<close> is read in text mode: a carriage
  return followed by a line feed, and a carriage return alone, are both read
  as one line feed. \<open>content.readline()\<close> gives the first line of the text
  with its newline, a string; the \<open>for\<close> loop over a string takes its
  characters one by one, each a string of length one.
\<close>

fun universal_newlines :: "string \<Rightarrow> string" where
  "universal_newlines (a # b # cs) =
     (if a = CHR 0x0D \<and> b = CHR 0x0A then CHR 0x0A # universal_newlines cs
      else if a = CHR 0x0D then CHR 0x0A # universal_newlines (b # cs)
      else a # universal_newlines (b # cs))"
| "universal_newlines [a] = (if a = CHR 0x0D then [CHR 0x0A] else [a])"
| "universal_newlines [] = []"

definition readline :: "string \<Rightarrow> string" where
  "readline text =
     takeWhile (\<lambda>c. c \<noteq> CHR 0x0A) text @ take 1 (dropWhile (\<lambda>c. c \<noteq> CHR 0x0A) text)"

definition read_wheel_names :: "host \<Rightarrow> string py" where
  "read_wheel_names h w =
     (case read_node (located (os_path_join (SCRIPT_DIR h) [''..'', ''WHEEL_NAMES.txt'']) w) (fs w) of
        Inl e \<Rightarrow> (Inl e, w)
      | Inr text \<Rightarrow> (Inr (readline (universal_newlines text)), w))"

definition wheel_args :: "host \<Rightarrow> string \<Rightarrow> string \<Rightarrow> string list" where
  "wheel_args h python_version wheel_name =
     [python_executable h python_version,
      ''setup.py'', ''bdist_wheel'',
      ''--build-type'', build_type, ''-G'', ''Ninja'',
      ''--'',
      ''-DITK_SOURCE_DIR:PATH='' @ source_path h,
      ''-DITK_BINARY_DIR:PATH='' @ build_path python_version,
      ''-DITKPythonPackage_ITK_BINARY_REUSE:BOOL=ON'',
      ''-DITKPythonPackage_WHEEL_NAME:STRING='' @ wheel_name,
      ''-DPYTHON_EXECUTABLE:FILEPATH='' @ python_executable h python_version,
      ''-DPYTHON_INCLUDE_DIR:PATH='' @ python_include_dir h python_version,
      ''-DPYTHON_LIBRARY:FILEPATH='' @ python_library python_version]"

definition build_one_wheel :: "host \<Rightarrow> string \<Rightarrow> string \<Rightarrow> unit py" where
  "build_one_wheel h python_version wheel_name =
     bind (check_call h (configure_args h python_version wheel_name))
       (\<lambda>u. bind (check_call h (wheel_args h python_version wheel_name))
         (\<lambda>u. check_call h (clean_args h python_version)))"

definition build_multiple_wheels :: "host \<Rightarrow> string \<Rightarrow> unit py" where
  "build_multiple_wheels h python_version =
     bind (generator_env h python_version)
       (\<lambda>build_env. bind (build_itk_python h python_version build_env)
         (\<lambda>u. bind (read_wheel_names h)
           (\<lambda>wheel_names.
              for_each (map (\<lambda>c. [c]) wheel_names) (build_one_wheel h python_version))))"

text \<open>
  The clean-up after the build. \<open>os.walk\<close> lists the tree top-down, one
  triple per directory; the loop body removes regular files only, so each
  directory is listed as it was when the walk began. The path of a listed
  file is its directory's path with the name appended.
\<close>

fun walk :: "path \<Rightarrow> node \<Rightarrow> (path \<times> string list \<times> string list) list" where
  "walk start (File s) = []"
| "walk start (Dir es) =
     (start, [k. (k, Dir ds) \<leftarrow> es], [k. (k, File s) \<leftarrow> es])
       # concat (map (\<lambda>(k, c). walk (start @ [k]) c) es)"

definition os_walk :: "path \<Rightarrow> world \<Rightarrow> (path \<times> string list \<times> string list) list" where
  "os_walk start w = (case lookup start (fs w) of None \<Rightarrow> [] | Some n \<Rightarrow> walk start n)"

definition remove_if_unnecessary :: "path \<Rightarrow> string \<Rightarrow> unit py" where
  "remove_if_unnecessary root filename =
     (let extension = snd (splitext filename)
      in if extension \<in> set [''.cpp'', ''.xml'', ''.obj'']
         then os_remove (root @ [filename])
         else return ())"

definition remove_unnecessary_files :: "string \<Rightarrow> unit py" where
  "remove_unnecessary_files python_version w =
     for_each (os_walk (located (build_path python_version) w) w)
       (\<lambda>(root, dirs, file_list). for_each file_list (remove_if_unnecessary root)) w"

definition remove_generators :: "string \<Rightarrow> unit py" where
  "remove_generators python_version w =
     shutil_rmtree
       (located (os_path_join (build_path python_version) [''Wrapping'', ''Generators'']) w) w"

definition post_build_cleanup :: "string \<Rightarrow> unit py" where
  "post_build_cleanup python_version =
     bind (remove_unnecessary_files python_version) (\<lambda>u. remove_generators python_version)"

definition build_wheel :: "host \<Rightarrow> string \<Rightarrow> bool \<Rightarrow> unit py" where
  "build_wheel h python_version single_wheel w =
     (let path = os_path_join (venv_dir h python_version) [''Scripts'']
      in case map_of (environ w) ''PATH'' of
           None \<Rightarrow> raise (KeyError ''PATH'') w
         | Some old_path \<Rightarrow>
             push_env [(''PATH'', Some (path @ '':'' @ old_path))]
               (bind (install_dependencies h python_version)
                  (\<lambda>u. bind (clean_previous python_version)
                    (\<lambda>u. bind (if single_wheel then build_single_wheel h python_version
                                else build_multiple_wheels h python_version)
                      (\<lambda>u. post_build_cleanup python_version)))) w)"

subsection \<open>build_wheels\<close>

definition build_wheels :: "host \<Rightarrow> unit py" where
  "build_wheels h =
     bind (prepare_build_env h ''27-x64'')
       (\<lambda>u. bind (prepare_build_env h ''35-x64'')
         (\<lambda>u. bind (prepare_build_env h ''36-x64'')
           (\<lambda>u. bind
              (with_push_dir (Some (STANDALONE_DIR h)) True
                 (let cmake_executable = ''cmake.exe'';
                      tools_venv = os_path_join (ROOT_DIR h) [''venv-27-x64''];
                      ninja = os_path_join tools_venv [''Scripts'', ''ninja.exe'']
                  in bind (pip_install h tools_venv ''ninja'')
                       (\<lambda>u. bind (check_call h
                                [cmake_executable,
                                 ''-DITKPythonPackage_BUILD_PYTHON:PATH=0'',
                                 ''-G'', ''Ninja'',
                                 ''-DCMAKE_MAKE_PROGRAM:FILEPATH='' @ ninja,
                                 ROOT_DIR h])
                         (\<lambda>u. check_call h [ninja]))))
              (\<lambda>u. let single_wheel = False
                   in bind (build_wheel h ''27-x64'' single_wheel)
                        (\<lambda>u. bind (build_wheel h ''35-x64'' single_wheel)
                          (\<lambda>u. build_wheel h ''36-x64'' single_wheel))))))"

subsection \<open>The programs started by a run\<close>

text \<open>
  \<open>performs m w L\<close>: started in world \<open>w\<close>, the operation \<open>m\<close> only
  appends to the log of programs started, what it appends is an initial part
  of the list \<open>L\<close> of argument vectors, and all of \<open>L\<close> unless \<open>m\<close>
  raises. \<open>wheel_names_read\<close> is the string that \<open>readline\<close> hands to
  the loop of the multiple-wheel branch started in a given world, and
  \<open>wheel_steps\<close> the programs that loop starts for it.
\<close>

definition performs :: "'a py \<Rightarrow> world \<Rightarrow> string list list \<Rightarrow> bool" where
  "performs m w L =
     (\<exists>cs. calls (snd (m w)) = calls w @ cs
        \<and> prefix (map call_args cs) L
        \<and> (isl (fst (m w)) \<or> map call_args cs = L))"

definition wheel_names_read :: "host \<Rightarrow> string \<Rightarrow> world \<Rightarrow> string" where
  "wheel_names_read h v w =
     (case fst (bind (generator_env h v)
                  (\<lambda>build_env. bind (build_itk_python h v build_env)
                    (\<lambda>u. read_wheel_names h)) w) of
        Inl e \<Rightarrow> []
      | Inr wheel_names \<Rightarrow> wheel_names)"

definition wheel_steps :: "host \<Rightarrow> string \<Rightarrow> string \<Rightarrow> string list list" where
  "wheel_steps h v wheel_names =
     concat (map (\<lambda>c. [configure_args h v [c], wheel_args h v [c], clean_args h v]) wheel_names)"

subsection \<open>Notions for the clean-up\<close>






subsection \<open>Example worlds\<close>

text \<open>Small worlds on which the properties below are exercised.\<close>

definition drive_before :: world where
  "drive_before = \<lparr>environ = [], cwd = [''C:''],
         fs = Dir [(''C:'', Dir [(''f.txt'', File ''x'')])], calls = []\<rparr>"

definition drive_after :: world where
  "drive_after = \<lparr>environ = [], cwd = [''C:''],
         fs = Dir [(''C:'', Dir [(''f.txt'', File ''x''), (''a'', Dir [(''b'', Dir [])])])],
         calls = []\<rparr>"

definition nested_cwd :: world where
  "nested_cwd = \<lparr>environ = [], cwd = [''C:'', ''a''],
         fs = Dir [(''C:'', Dir [(''a'', Dir [])])], calls = []\<rparr>"

definition built_tree :: node where
  "built_tree =
     Dir [(''C:'',
       Dir [(''P'', Dir [(''IPP'', Dir [(''ITK-win_27-x64'',
              Dir [(''Wrapping'', Dir [(''Generators'', Dir [(''igenerator.py'', File [])])]),
                   (''itkImage.cpp'', File []),
                   (''ITKCommon.lib'', File [])])])])])]"

definition single_host :: host where
  "single_host = \<lparr>SCRIPT_DIR = ''C:/IPP/scripts'', ROOT_DIR = ''C:/IPP'',
      run = (\<lambda>args e c t. (0, [], built_tree)),
      json_loads = (\<lambda>s. Inr []),
      temp_name = ''C:/tmpabc.py''\<rparr>"

definition multi_host :: host where
  "multi_host = \<lparr>SCRIPT_DIR = ''C:/IPP/scripts'', ROOT_DIR = ''C:/IPP'',
      run = (\<lambda>args e c t. (0, ''{}'',
               alter [''C:'', ''P'', ''IPP'', ''ITK-win_27-x64'']
                 (\<lambda>d. Dir [(''Wrapping'', Dir [(''Generators'', Dir [])])]) t)),
      json_loads = (\<lambda>s. Inr []),
      temp_name = ''C:/tmpabc.py''\<rparr>"

definition manifest_world :: world where
  "manifest_world = \<lparr>environ = [(''PATH'', ''C:/bin'')], cwd = [''C:'', ''IPP''],
      fs = Dir [(''C:'', Dir [(''IPP'', Dir [(''WHEEL_NAMES.txt'', File (''itk'' @ [CHR 0x0A]))])])],
      calls = []\<rparr>"

definition failing_host :: host where
  "failing_host = \<lparr>SCRIPT_DIR = ''C:/IPP/scripts'', ROOT_DIR = ''C:/IPP'',
      run = (\<lambda>args e c t. (1, [], t)),
      json_loads = (\<lambda>s. Inl (ValueError ''Expecting value'')),
      temp_name = ''C:/tmpabc.py''\<rparr>"

definition built_world :: world where
  "built_world = \<lparr>environ = [], cwd = [''C:''], fs = built_tree, calls = []\<rparr>"

section \<open>Properties\<close>

subsection \<open>Restoring a dictionary from its items\<close>

lemma update_fresh_appends:
  "k \<notin> fst ` set al \<Longrightarrow> AList.update k v al = al @ [(k, v)]"
  by (induction al) auto

lemma restore_items_onto:
  "distinct (map fst (acc @ items)) \<Longrightarrow>
   fold (\<lambda>(k, v). AList.update k v) items acc = acc @ items"
proof (induction items arbitrary: acc)
  case Nil
  then show ?case by simp
next
  case (Cons kv items)
  obtain k v where kv: "kv = (k, v)" by (cases kv)
  from Cons.prems kv have fresh: "k \<notin> fst ` set acc" by auto
  from Cons.prems kv have "distinct (map fst ((acc @ [(k, v)]) @ items))" by simp
  then have "fold (\<lambda>(k, v). AList.update k v) items (acc @ [(k, v)]) = (acc @ [(k, v)]) @ items"
    by (rule Cons.IH)
  with fresh kv show ?case by (simp add: update_fresh_appends)
qed

lemma restore_items:
  "distinct (map fst items) \<Longrightarrow> fold (\<lambda>(k, v). AList.update k v) items [] = items"
  using restore_items_onto [of "[]" items] by simp

subsection \<open>C4: a normal exit reinstates the snapshot\<close>

text \<open>
  C4. When the operation wrapped by \<open>push_env\<close> returns normally, the
  environment after the scope is exactly the environment before it, whatever
  the requested changes were and whatever the wrapped operation did to the
  table in between: the table is cleared and refilled from the snapshot, so
  changes to unrelated variables are discarded and added variables are gone.
  The value of the wrapped operation is passed through. The keys of a
  dictionary are distinct, which is the only assumption on the table.
\<close>

theorem push_env_normal_exit_restores:
  assumes "distinct (map fst (environ w))"
    and "body (snd (push_env_before_yield kwargs w)) = (Inr x, w1)"
  shows "fst (push_env kwargs body w) = Inr x
       \<and> environ (snd (push_env kwargs body w)) = environ w
       \<and> snd (push_env kwargs body w) = w1\<lparr>environ := environ w\<rparr>"
  using assms
  by (simp add: push_env_def with_generator_def bind_def push_env_before_yield_def
      push_env_after_yield_def restore_items Let_def)

theorem push_env_normal_exit_restores_witness:
  "distinct (map fst (environ \<lparr>environ = [(''PATH'', ''C:/bin''), (''TEMP'', ''C:/tmp'')],
        cwd = [], fs = Dir [], calls = []\<rparr>))
   \<and> environ (snd (push_env [(''PATH'', Some ''X''), (''TEMP'', None)]
        (\<lambda>w. (Inr (), w\<lparr>environ := (''EXTRA'', ''1'') # AList.delete ''PATH'' (environ w)\<rparr>))
        \<lparr>environ = [(''PATH'', ''C:/bin''), (''TEMP'', ''C:/tmp'')],
         cwd = [], fs = Dir [], calls = []\<rparr>))
     = [(''PATH'', ''C:/bin''), (''TEMP'', ''C:/tmp'')]"
  using push_env_normal_exit_restores
    [of "\<lparr>environ = [(''PATH'', ''C:/bin''), (''TEMP'', ''C:/tmp'')],
          cwd = [], fs = Dir [], calls = []\<rparr>"
        "\<lambda>w. (Inr (), w\<lparr>environ := (''EXTRA'', ''1'') # AList.delete ''PATH'' (environ w)\<rparr>)"
        "[(''PATH'', Some ''X''), (''TEMP'', None)]" "()"
        "\<lparr>environ = [(''EXTRA'', ''1'')], cwd = [], fs = Dir [], calls = []\<rparr>"]
  by (simp add: push_env_before_yield_def push_env_change_def)

subsection \<open>C1: an exception in the wrapped operation\<close>

text \<open>
  When the wrapped operation raises, the scope ends with its exception and
  with the world exactly as the operation left it: nothing is restored.
\<close>

lemma push_env_raise_skips_restore:
  assumes "body (snd (push_env_before_yield kwargs w)) = (Inl e, w1)"
  shows "push_env kwargs body w = (Inl e, w1)"
  using assms
  by (simp add: push_env_def with_generator_def bind_def push_env_before_yield_def Let_def)

text \<open>
  C1. The claim is that the environment after the scope equals the
  environment before it when the wrapped operation raises. The generator has
  no \<open>try\<close> around its \<open>yield\<close>, so the restoring statements are skipped
  on that path: with the table empty before the scope, the request
  \<open>A = 1\<close> and a wrapped operation that raises, the variable \<open>A\<close> is
  still set after the scope.
\<close>

theorem push_env_raise_leaves_changes:
  "push_env [(''A'', Some ''1'')] (raise (Exception ''boom''))
     \<lparr>environ = [], cwd = [], fs = Dir [], calls = []\<rparr>
   = (Inl (Exception ''boom''),
      \<lparr>environ = [(''A'', ''1'')], cwd = [], fs = Dir [], calls = []\<rparr>)"
  by (simp add: push_env_def with_generator_def bind_def push_env_before_yield_def
      push_env_change_def raise_def)

subsection \<open>Looking up and altering the tree\<close>

lemma lookup_append:
  "lookup (p @ q) t = (case lookup p t of None \<Rightarrow> None | Some n \<Rightarrow> lookup q n)"
  by (induction p arbitrary: t) (auto split: node.splits option.splits)

lemma map_of_map_entry_at:
  "map_of (AList.map_entry k f es) x = (if x = k then map_option f (map_of es k) else map_of es x)"
  by (induction es) auto

lemma lookup_alter:
  "lookup p t = Some n \<Longrightarrow> lookup (p @ q) (alter p f t) = lookup q (f n)"
  by (induction p arbitrary: t) (auto simp: map_of_map_entry_at split: node.splits option.splits)

lemma lookup_butlast:
  "p \<noteq> [] \<Longrightarrow> lookup p t = Some n \<Longrightarrow>
   \<exists>es. lookup (butlast p) t = Some (Dir es) \<and> map_of es (last p) = Some n"
  using lookup_append [of "butlast p" "[last p]" t]
  by (auto split: node.splits option.splits)

lemma mkdir_node_makes_dir:
  assumes "mkdir_node p t = Inr t'"
  shows "lookup p t' = Some (Dir [])"
proof -
  from assms have ne: "p \<noteq> []" by (auto simp: mkdir_node_def)
  from assms ne obtain es where par: "lookup (butlast p) t = Some (Dir es)"
    and fresh: "last p \<notin> fst ` set es"
    and t': "t' = alter (butlast p) (\<lambda>d. Dir (es @ [(last p, Dir [])])) t"
    by (auto simp: mkdir_node_def split: option.splits node.splits if_splits)
  from fresh have "map_of es (last p) = None"
    by (simp add: map_of_eq_None_iff)
  then have "lookup [last p] (Dir (es @ [(last p, Dir [])])) = Some (Dir [])"
    by (simp add: map_add_def)
  with lookup_alter [OF par, of "[last p]" "\<lambda>d. Dir (es @ [(last p, Dir [])])"] t' ne
  show ?thesis by simp
qed

lemma mkdir_node_exists:
  assumes "lookup p t = Some n"
  shows "mkdir_node p t = Inl (OSError EEXIST)"
proof (cases "p = []")
  case True
  then show ?thesis by (simp add: mkdir_node_def)
next
  case False
  from lookup_butlast [OF False assms] obtain es where
    "lookup (butlast p) t = Some (Dir es)" "map_of es (last p) = Some n" by blast
  moreover from this have "last p \<in> fst ` set es"
    by (metis domI dom_map_of_conv_image_fst)
  ultimately show ?thesis using False by (simp add: mkdir_node_def)
qed

lemma os_mkdir_cases:
  "os_mkdir p w = (r, w1) \<Longrightarrow>
   (\<exists>e. r = Inl e \<and> w1 = w \<and> mkdir_node p (fs w) = Inl e)
   \<or> (\<exists>t. r = Inr () \<and> w1 = w\<lparr>fs := t\<rparr> \<and> mkdir_node p (fs w) = Inr t)"
  by (auto simp: os_mkdir_def change_fs_def split: sum.splits)

lemma os_makedirs_cwd: "cwd (snd (os_makedirs name w)) = cwd w"
proof (induction name w rule: os_makedirs.induct)
  case (1 name w)
  show ?case
  proof (cases "name \<noteq> [] \<and> lookup (butlast name) (fs w) = None")
    case True
    obtain r w1 where rec: "os_makedirs (butlast name) w = (r, w1)" by (cases "os_makedirs (butlast name) w")
    with 1 True have "cwd w1 = cwd w" by simp
    moreover have "cwd (snd (os_mkdir name w1)) = cwd w1"
      by (simp add: os_mkdir_def change_fs_def split: sum.splits)
    ultimately show ?thesis using True rec
      by (subst os_makedirs.simps) (auto split: sum.splits)
  next
    case False
    have "cwd (snd (os_mkdir name w)) = cwd w"
      by (simp add: os_mkdir_def change_fs_def split: sum.splits)
    with False show ?thesis by (subst os_makedirs.simps) auto
  qed
qed

lemma os_mkdir_success_dir:
  "os_mkdir p w = (Inr u, w1) \<Longrightarrow> lookup p (fs w1) = Some (Dir [])"
  by (auto simp: os_mkdir_def change_fs_def mkdir_node_makes_dir split: sum.splits)

lemma os_makedirs_success_dir:
  assumes "os_makedirs name w = (Inr u, w1)"
  shows "lookup name (fs w1) = Some (Dir [])"
  using assms
  by (subst (asm) os_makedirs.simps)
     (auto split: if_splits sum.splits prod.splits dest: os_mkdir_success_dir)

lemma os_makedirs_exists:
  assumes "lookup name (fs w) = Some n"
  shows "os_makedirs name w = (Inl (OSError EEXIST), w)"
proof -
  have "name \<noteq> [] \<Longrightarrow> lookup (butlast name) (fs w) \<noteq> None"
    using lookup_butlast [OF _ assms] by auto
  then show ?thesis
    using mkdir_node_exists [OF assms]
    by (subst os_makedirs.simps) (auto simp: os_mkdir_def change_fs_def)
qed


lemma os_makedirs_creates:
  assumes "lookup name (fs w) = None"
    and "list_all (\<lambda>q. \<not> is_file (lookup q (fs w))) (prefixes name)"
  shows "\<exists>w1. os_makedirs name w = (Inr (), w1)"
  using assms
proof (induction name w rule: os_makedirs.induct)
  case (1 name w)
  from "1.prems"(1) have ne: "name \<noteq> []" by auto
  then have name: "name = butlast name @ [last name]" by simp
  have up: "prefix q name" if "prefix q (butlast name)" for q
    using that prefixeq_butlast [of name] by (rule prefix_order.trans)
  have pre: "list_all (\<lambda>q. \<not> is_file (lookup q (fs w))) (prefixes (butlast name))"
    using "1.prems"(2) up by (auto simp: list_all_iff in_set_prefixes)
  show ?case
  proof (cases "lookup (butlast name) (fs w)")
    case None
    with "1.IH" ne pre obtain w1 where rec: "os_makedirs (butlast name) w = (Inr (), w1)"
      by auto
    from os_makedirs_success_dir [OF rec] have "lookup (butlast name) (fs w1) = Some (Dir [])" .
    then have "mkdir_node name (fs w1) = Inr (alter (butlast name) (\<lambda>d. Dir ([] @ [(last name, Dir [])])) (fs w1))"
      using ne by (simp add: mkdir_node_def)
    then show ?thesis using None ne rec
      by (subst os_makedirs.simps) (simp add: os_mkdir_def change_fs_def)
  next
    case (Some n)
    have "\<not> is_file (lookup (butlast name) (fs w))"
      using "1.prems"(2) by (auto simp: list_all_iff in_set_prefixes prefixeq_butlast)
    with Some obtain es where n: "n = Dir es" by (cases n) (auto simp: is_file_def)
    from "1.prems"(1) Some n have "map_of es (last name) = None"
      using lookup_append [of "butlast name" "[last name]" "fs w"] ne
      by (auto split: option.splits)
    then have "last name \<notin> fst ` set es" by (simp add: map_of_eq_None_iff)
    with Some n ne show ?thesis
      by (subst os_makedirs.simps) (simp add: os_mkdir_def change_fs_def mkdir_node_def)
  qed
qed

lemmas fs_eval =
  located_def resolve_def isabs_def splitdrive_def seps_def resolve_step_def
  os_makedirs.simps os_mkdir_def os_remove_def shutil_rmtree_def os_chdir_def change_fs_def
  mkdir_node_def remove_node_def rmtree_node_def write_node_def read_node_def drop_entry_def
  os_path_isdir_def os_path_isfile_def os_path_exists_def is_dir_def is_file_def
  mkdir_p_def

lemmas py_eval =
  bind_def return_def raise_def try_finally_def with_class_def with_generator_def

subsection \<open>C5: mkdir_p\<close>

lemma mkdir_p_tolerates:
  "os_makedirs (located name w) w = (Inl (OSError EEXIST), w1) \<Longrightarrow> os_path_isdir name w1
   \<Longrightarrow> mkdir_p name w = (Inr (), w1)"
  by (simp add: mkdir_p_def)

lemma mkdir_p_creates:
  assumes "\<not> os_path_exists name w"
    and "list_all (\<lambda>q. \<not> is_file (lookup q (fs w))) (prefixes (located name w))"
  shows "fst (mkdir_p name w) = Inr ()"
proof -
  from assms obtain w2 where "os_makedirs (located name w) w = (Inr (), w2)"
    using os_makedirs_creates [of "located name w" w] by (auto simp: os_path_exists_def)
  then show ?thesis by (simp add: mkdir_p_def)
qed

lemma mkdir_p_idem:
  assumes ok: "mkdir_p name w = (Inr (), w1)"
  shows "os_path_isdir name w1 \<and> mkdir_p name w1 = (Inr (), w1)"
proof -
  obtain r w2 where mk: "os_makedirs (located name w) w = (r, w2)"
    by (cases "os_makedirs (located name w) w")
  from os_makedirs_cwd [of "located name w" w] mk have cwd2: "cwd w2 = cwd w" by simp
  from ok mk have w12: "w1 = w2"
    by (auto simp: mkdir_p_def split: sum.splits exn.splits if_splits)
  have dir: "os_path_isdir name w1"
  proof (cases r)
    case (Inl exc)
    with ok mk show ?thesis
      by (auto simp: mkdir_p_def split: exn.splits if_splits)
  next
    case (Inr u)
    with mk w12 cwd2 os_makedirs_success_dir [of "located name w" w u w2]
    show ?thesis by (simp add: os_path_isdir_def located_def is_dir_def)
  qed
  then obtain es where "lookup (located name w1) (fs w1) = Some (Dir es)"
    by (auto simp: os_path_isdir_def is_dir_def split: option.splits node.splits)
  from os_makedirs_exists [OF this] dir
  have "mkdir_p name w1 = (Inr (), w1)" by (simp add: mkdir_p_def)
  with dir show ?thesis by simp
qed

lemma mkdir_p_file:
  assumes "os_path_isfile name w"
  shows "mkdir_p name w = (Inl (OSError EEXIST), w)"
proof -
  from assms obtain s where f: "lookup (located name w) (fs w) = Some (File s)"
    by (auto simp: os_path_isfile_def is_file_def split: option.splits node.splits)
  then have "\<not> os_path_isdir name w" by (simp add: os_path_isdir_def is_dir_def)
  with os_makedirs_exists [OF f] show ?thesis by (simp add: mkdir_p_def)
qed

lemma mkdir_p_other:
  "os_makedirs (located name w) w = (Inl e, w1) \<Longrightarrow>
   \<not> (e = OSError EEXIST \<and> os_path_isdir name w1) \<Longrightarrow> mkdir_p name w = (Inl e, w1)"
  by (auto simp: mkdir_p_def split: exn.splits)

text \<open>
  C5. \<open>mkdir_p\<close> returns without error when \<open>os.makedirs\<close> fails with
  \<open>EEXIST\<close> and the path is a directory. On a path that does not exist and
  has no regular file among its ancestors it succeeds; whenever it has
  succeeded the path is a directory and a second call succeeds again and
  changes nothing. On a path that is a regular file it raises the
  \<open>EEXIST\<close> error, and every other error of \<open>os.makedirs\<close> is raised
  as it is.
\<close>

theorem mkdir_p_spec:
  "(os_makedirs (located name w) w = (Inl (OSError EEXIST), w1) \<and> os_path_isdir name w1
      \<longrightarrow> mkdir_p name w = (Inr (), w1))
   \<and> (\<not> os_path_exists name w
        \<and> list_all (\<lambda>q. \<not> is_file (lookup q (fs w))) (prefixes (located name w))
      \<longrightarrow> fst (mkdir_p name w) = Inr ())
   \<and> (mkdir_p name w = (Inr (), w1)
      \<longrightarrow> os_path_isdir name w1 \<and> mkdir_p name w1 = (Inr (), w1))
   \<and> (os_path_isfile name w \<longrightarrow> mkdir_p name w = (Inl (OSError EEXIST), w))
   \<and> (os_makedirs (located name w) w = (Inl e, w1)
        \<and> \<not> (e = OSError EEXIST \<and> os_path_isdir name w1)
      \<longrightarrow> mkdir_p name w = (Inl e, w1))"
  using mkdir_p_tolerates [of name w w1] mkdir_p_creates [of name w] mkdir_p_idem [of name w w1]
    mkdir_p_file [of name w] mkdir_p_other [of name w e w1]
  by blast

theorem mkdir_p_spec_witness:
  "mkdir_p ''C:/a/b'' drive_before = (Inr (), drive_after)
   \<and> os_path_isdir ''C:/a/b'' drive_after
   \<and> mkdir_p ''C:/a/b'' drive_after = (Inr (), drive_after)
   \<and> os_path_isfile ''C:/f.txt'' drive_before
   \<and> mkdir_p ''C:/f.txt'' drive_before = (Inl (OSError EEXIST), drive_before)
   \<and> mkdir_p ''C:/f.txt/x'' drive_before = (Inl (OSError ENOENT), drive_before)"
proof -
  have first: "mkdir_p ''C:/a/b'' drive_before = (Inr (), drive_after)"
    by (simp add: drive_before_def drive_after_def fs_eval)
  have again: "os_makedirs (located ''C:/a/b'' drive_after) drive_after = (Inl (OSError EEXIST), drive_after)
      \<and> os_path_isdir ''C:/a/b'' drive_after"
    by (simp add: drive_after_def fs_eval)
  have fresh: "\<not> os_path_exists ''C:/a/b'' drive_before
      \<and> list_all (\<lambda>q. \<not> is_file (lookup q (fs drive_before))) (prefixes (located ''C:/a/b'' drive_before))"
    by (simp add: drive_before_def fs_eval)
  have isfile: "os_path_isfile ''C:/f.txt'' drive_before"
    by (simp add: drive_before_def fs_eval)
  have other: "os_makedirs (located ''C:/f.txt/x'' drive_before) drive_before = (Inl (OSError ENOENT), drive_before)
      \<and> \<not> (OSError ENOENT = OSError EEXIST \<and> os_path_isdir ''C:/f.txt/x'' drive_before)"
    by (simp add: drive_before_def fs_eval)
  note at_new = mkdir_p_spec [of "''C:/a/b''" drive_before drive_after "OSError ENOENT"]
  note at_old = mkdir_p_spec [of "''C:/a/b''" drive_after drive_after "OSError ENOENT"]
  note at_file = mkdir_p_spec [of "''C:/f.txt''" drive_before drive_before "OSError ENOENT"]
  note at_below = mkdir_p_spec [of "''C:/f.txt/x''" drive_before drive_before "OSError ENOENT"]
  have "fst (mkdir_p ''C:/a/b'' drive_before) = Inr ()"
    using at_new fresh by simp
  have twice: "os_path_isdir ''C:/a/b'' drive_after \<and> mkdir_p ''C:/a/b'' drive_after = (Inr (), drive_after)"
    using at_new first by simp
  have "mkdir_p ''C:/a/b'' drive_after = (Inr (), drive_after)"
    using at_old again by simp
  have onfile: "mkdir_p ''C:/f.txt'' drive_before = (Inl (OSError EEXIST), drive_before)"
    using at_file isfile by simp
  have below: "mkdir_p ''C:/f.txt/x'' drive_before = (Inl (OSError ENOENT), drive_before)"
    using at_below other by simp
  from first twice isfile onfile below show ?thesis by simp
qed

subsection \<open>C3: push_dir\<close>

lemma mkdir_p_cwd: "cwd (snd (mkdir_p name w)) = cwd w"
  using os_makedirs_cwd [of "located name w" w]
  by (auto simp: mkdir_p_def split: prod.splits sum.splits exn.splits)

lemma os_chdir_refused: "os_chdir p w = (Inl e, w1) \<Longrightarrow> w1 = w"
  by (auto simp: os_chdir_def split: option.splits node.splits)

lemma push_dir_enter_records:
  assumes "push_dir_enter (self, w) = (r, (self0, w0))"
  shows "self0 = self\<lparr>old_cwd := Some (cwd w)\<rparr>"
  using assms
  by (auto simp: push_dir_enter_def outside_def Let_def
      split: option.splits if_splits prod.splits)

lemma push_dir_enter_failed_cwd:
  assumes "push_dir_enter (self, w) = (Inl e, (self0, w0))"
  shows "cwd w0 = cwd w"
proof (cases "\<exists>name. directory self = Some name \<and> name \<noteq> []")
  case False
  with assms show ?thesis
    by (auto simp: push_dir_enter_def Let_def split: option.splits)
next
  case True
  then obtain name where d: "directory self = Some name" "name \<noteq> []" by blast
  let ?first = "if make_directory self then mkdir_p name else return ()"
  obtain r1 w1 where first: "?first w = (r1, w1)" by (cases "?first w")
  have c1: "cwd w1 = cwd w"
    using first mkdir_p_cwd [of name w] by (auto simp: return_def split: if_splits)
  show ?thesis
  proof (cases r1)
    case (Inl e1)
    with assms d first c1 show ?thesis
      by (simp add: push_dir_enter_def outside_def Let_def bind_def)
  next
    case (Inr u)
    obtain r2 w2 where second: "os_chdir (located name w1) w1 = (r2, w2)"
      by (cases "os_chdir (located name w1) w1")
    with assms d first Inr have "r2 = Inl e" "w2 = w0"
      by (auto simp: push_dir_enter_def outside_def Let_def bind_def)
    with second os_chdir_refused [of "located name w1" w1 e w0] c1 show ?thesis by simp
  qed
qed

lemma with_self_refused:
  assumes "push_dir_enter (self, w) = (Inl e, (self0, w0))"
  shows "with_self body (self, w) = (Inl e, (self0, w0)) \<and> cwd w0 = cwd w"
  using assms push_dir_enter_failed_cwd [OF assms]
  by (simp add: with_self_def with_class_def bind_def)

lemma with_self_entered:
  assumes "push_dir_enter (self, w) = (Inr (), (self0, w0))"
    and "body (self0, w0) = (r, (self1, w1))"
    and "old_cwd self1 = Some (cwd w)"
    and "is_dir (lookup (cwd w) (fs w1))"
  shows "with_self body (self, w) = (r, (self1, w1\<lparr>cwd := cwd w\<rparr>))"
  using assms
  by (auto simp: with_self_def with_class_def bind_def try_finally_def push_dir_exit_def
      outside_def os_chdir_def is_dir_def split: option.splits node.splits)

text \<open>
  The statement \<open>with push_dir(...)\<close> of the script makes its own object,
  which the body cannot reach: there the directory recorded at entry is the
  one \<open>__exit__\<close> finds.
\<close>

lemma fresh_object_scope:
  assumes "push_dir_enter (push_dir_init d m, w) = (Inr (), (self0, w0))"
    and "body w0 = (r, w1)"
    and "is_dir (lookup (cwd w) (fs w1))"
  shows "with_push_dir d m body w = (r, w1\<lparr>cwd := cwd w\<rparr>)"
proof -
  from push_dir_enter_records [OF assms(1)] have "old_cwd self0 = Some (cwd w)" by simp
  moreover from assms(2) have "outside body (self0, w0) = (r, (self0, w1))"
    by (simp add: outside_def)
  ultimately have "with_self (outside body) (push_dir_init d m, w)
      = (r, (self0, w1\<lparr>cwd := cwd w\<rparr>))"
    using assms(1,3) by (intro with_self_entered)
  then show ?thesis by (simp add: with_push_dir_def)
qed

text \<open>
  C3, as amended. A scope on a \<open>push_dir\<close> object, in whatever state the
  object is and whatever it is asked to do (no directory, a directory, a
  directory to be created), entered by \<open>with\<close> or through the decorator.
  When \<open>__enter__\<close> raises, the scope ends with that exception and the
  working directory has not moved. When \<open>__enter__\<close> has succeeded, then
  whatever the wrapped operation does to the world and to the object, and
  however it ends (its result \<open>r\<close> is a value or an exception), the scope
  ends with that same result and with the working directory recorded at
  entry, provided that at the exit the object still holds the directory
  recorded at this entry and that directory is still a directory.
\<close>

theorem push_dir_restores:
  "(push_dir_enter (self, w) = (Inl e, (self0, w0))
      \<longrightarrow> with_self body (self, w) = (Inl e, (self0, w0)) \<and> cwd w0 = cwd w)
   \<and> (push_dir_enter (self, w) = (Inr (), (self0, w0)) \<and> body (self0, w0) = (r, (self1, w1))
        \<and> old_cwd self1 = Some (cwd w) \<and> is_dir (lookup (cwd w) (fs w1))
      \<longrightarrow> with_self body (self, w) = (r, (self1, w1\<lparr>cwd := cwd w\<rparr>)))
   \<and> (push_dir_enter (self, w) = (Inr (), (self0, w0))
        \<and> func args (self0, w0) = (r', (self1, w1))
        \<and> old_cwd self1 = Some (cwd w) \<and> is_dir (lookup (cwd w) (fs w1))
      \<longrightarrow> push_dir_call func args (self, w) = (r', (self1, w1\<lparr>cwd := cwd w\<rparr>)))"
proof (intro conjI; rule impI)
  assume "push_dir_enter (self, w) = (Inl e, (self0, w0))"
  then show "with_self body (self, w) = (Inl e, (self0, w0)) \<and> cwd w0 = cwd w"
    by (rule with_self_refused)
next
  assume entered: "push_dir_enter (self, w) = (Inr (), (self0, w0))
        \<and> body (self0, w0) = (r, (self1, w1))
        \<and> old_cwd self1 = Some (cwd w) \<and> is_dir (lookup (cwd w) (fs w1))"
  show "with_self body (self, w) = (r, (self1, w1\<lparr>cwd := cwd w\<rparr>))"
    by (rule with_self_entered [of self w self0 w0 body r self1 w1]) (use entered in blast)+
next
  assume "push_dir_enter (self, w) = (Inr (), (self0, w0))
        \<and> func args (self0, w0) = (r', (self1, w1))
        \<and> old_cwd self1 = Some (cwd w) \<and> is_dir (lookup (cwd w) (fs w1))"
  then have "with_self (func args) (self, w) = (r', (self1, w1\<lparr>cwd := cwd w\<rparr>))"
    using with_self_entered [of self w self0 w0 "func args" r' self1 w1] by blast
  then show "push_dir_call func args (self, w) = (r', (self1, w1\<lparr>cwd := cwd w\<rparr>))"
    by (simp add: push_dir_call_def)
qed

theorem push_dir_restores_witness:
  "with_self (outside (return ())) (push_dir_init (Some ''C:/missing'') False, nested_cwd)
     = (Inl (OSError ENOENT),
        (\<lparr>directory = Some ''C:/missing'', make_directory = False,
           old_cwd = Some [''C:'', ''a'']\<rparr>, nested_cwd))
   \<and> with_self (outside (raise (Exception ''boom''))) (push_dir_init (Some ''C:/b/c'') True, nested_cwd)
     = (Inl (Exception ''boom''),
        (\<lparr>directory = Some ''C:/b/c'', make_directory = True, old_cwd = Some [''C:'', ''a'']\<rparr>,
         nested_cwd\<lparr>fs := Dir [(''C:'', Dir [(''a'', Dir []), (''b'', Dir [(''c'', Dir [])])])]\<rparr>))
   \<and> push_dir_call (\<lambda>args. outside (return ())) () (push_dir_init (Some ''C:/b/c'') True, nested_cwd)
     = (Inr (),
        (\<lparr>directory = Some ''C:/b/c'', make_directory = True, old_cwd = Some [''C:'', ''a'']\<rparr>,
         nested_cwd\<lparr>fs := Dir [(''C:'', Dir [(''a'', Dir []), (''b'', Dir [(''c'', Dir [])])])]\<rparr>))"
proof -
  let ?fs = "Dir [(''C:'', Dir [(''a'', Dir []), (''b'', Dir [(''c'', Dir [])])])]"
  let ?missing = "\<lparr>directory = Some ''C:/missing'', make_directory = False,
                   old_cwd = Some [''C:'', ''a'']\<rparr>"
  let ?self = "\<lparr>directory = Some ''C:/b/c'', make_directory = True, old_cwd = Some [''C:'', ''a'']\<rparr>"
  let ?inside = "nested_cwd\<lparr>cwd := [''C:'', ''b'', ''c''], fs := ?fs\<rparr>"
  have refused: "push_dir_enter (push_dir_init (Some ''C:/missing'') False, nested_cwd)
      = (Inl (OSError ENOENT), (?missing, nested_cwd))"
    by (simp add: nested_cwd_def push_dir_enter_def push_dir_init_def outside_def py_eval fs_eval)
  have enter: "push_dir_enter (push_dir_init (Some ''C:/b/c'') True, nested_cwd)
      = (Inr (), (?self, ?inside))"
    by (simp add: nested_cwd_def push_dir_enter_def push_dir_init_def outside_def py_eval fs_eval)
  have body_raises: "outside (raise (Exception ''boom'')) (?self, ?inside)
      = (Inl (Exception ''boom''), (?self, ?inside))"
    by (simp add: outside_def raise_def)
  have body_returns: "outside (return ()) (?self, ?inside) = (Inr (), (?self, ?inside))"
    by (simp add: outside_def return_def)
  have held: "old_cwd ?self = Some (cwd nested_cwd)"
    by (simp add: nested_cwd_def)
  have still: "is_dir (lookup (cwd nested_cwd) (fs ?inside))"
    by (simp add: nested_cwd_def is_dir_def)
  have restored: "?inside\<lparr>cwd := cwd nested_cwd\<rparr> = nested_cwd\<lparr>fs := ?fs\<rparr>"
    by (simp add: nested_cwd_def)
  note at_missing = push_dir_restores [of "push_dir_init (Some ''C:/missing'') False" nested_cwd
      "OSError ENOENT" ?missing nested_cwd "outside (return ())" "Inr ()" ?missing nested_cwd
      "\<lambda>args. outside (return ())" "()" "Inr ()"]
  note at_raise = push_dir_restores [of "push_dir_init (Some ''C:/b/c'') True" nested_cwd
      "OSError ENOENT" ?self ?inside "outside (raise (Exception ''boom''))"
      "Inl (Exception ''boom'')" ?self ?inside "\<lambda>args. outside (return ())" "()" "Inr ()"]
  note at_return = push_dir_restores [of "push_dir_init (Some ''C:/b/c'') True" nested_cwd
      "OSError ENOENT" ?self ?inside "outside (raise (Exception ''boom''))"
      "Inl (Exception ''boom'')" ?self ?inside "\<lambda>args. outside (return ())" "()" "Inr ()"]
  have one: "with_self (outside (return ())) (push_dir_init (Some ''C:/missing'') False, nested_cwd)
      = (Inl (OSError ENOENT), (?missing, nested_cwd))"
    using mp [OF conjunct1 [OF at_missing] refused] by (rule conjunct1)
  have "with_self (outside (raise (Exception ''boom''))) (push_dir_init (Some ''C:/b/c'') True, nested_cwd)
      = (Inl (Exception ''boom''), (?self, ?inside\<lparr>cwd := cwd nested_cwd\<rparr>))"
    by (rule mp [OF conjunct1 [OF conjunct2 [OF at_raise]]])
       (intro conjI enter body_raises held still)
  then have two: "with_self (outside (raise (Exception ''boom''))) (push_dir_init (Some ''C:/b/c'') True, nested_cwd)
      = (Inl (Exception ''boom''), (?self, nested_cwd\<lparr>fs := ?fs\<rparr>))"
    by (simp only: restored)
  have "push_dir_call (\<lambda>args. outside (return ())) () (push_dir_init (Some ''C:/b/c'') True, nested_cwd)
      = (Inr (), (?self, ?inside\<lparr>cwd := cwd nested_cwd\<rparr>))"
    by (rule mp [OF conjunct2 [OF conjunct2 [OF at_return]]])
       (intro conjI enter body_returns held still)
  then have three: "push_dir_call (\<lambda>args. outside (return ())) () (push_dir_init (Some ''C:/b/c'') True, nested_cwd)
      = (Inr (), (?self, nested_cwd\<lparr>fs := ?fs\<rparr>))"
    by (simp only: restored)
  from one two three show ?thesis by (intro conjI)
qed

text \<open>
  C3 as stated ("for every invocation, on every exit path") fails in two
  ways. When the wrapped operation removes the directory recorded at entry,
  the \<open>os.chdir\<close> of \<open>__exit__\<close> raises and the working directory stays
  where the scope had put it. And when the object is entered again inside its
  own scope (a \<open>with\<close> on the object inside a \<open>with\<close> on the same
  object, or a decorated function that calls itself), the second
  \<open>__enter__\<close> overwrites \<open>old_cwd\<close> with the target directory, so the
  outer \<open>__exit__\<close> goes to the target and not back: the outer scope ends
  normally in \<open>C:/b\<close>, having started in \<open>C:/a\<close>.
\<close>

theorem push_dir_old_cwd_removed:
  "with_push_dir (Some ''C:/b'') True (shutil_rmtree [''C:'', ''a'']) nested_cwd
     = (Inl (OSError ENOENT),
        nested_cwd\<lparr>cwd := [''C:'', ''b''], fs := Dir [(''C:'', Dir [(''b'', Dir [])])]\<rparr>)
   \<and> cwd (snd (with_push_dir (Some ''C:/b'') True (shutil_rmtree [''C:'', ''a'']) nested_cwd))
       \<noteq> cwd nested_cwd
   \<and> with_self (with_self (outside (return ()))) (push_dir_init (Some ''C:/b'') True, nested_cwd)
     = (Inr (),
        (\<lparr>directory = Some ''C:/b'', make_directory = True, old_cwd = Some [''C:'', ''b'']\<rparr>,
         nested_cwd\<lparr>cwd := [''C:'', ''b''],
                      fs := Dir [(''C:'', Dir [(''a'', Dir []), (''b'', Dir [])])]\<rparr>))
   \<and> cwd (snd (snd (push_dir_call (\<lambda>n. push_dir_call (\<lambda>n. outside (return ())) n) ()
                       (push_dir_init (Some ''C:/b'') True, nested_cwd))))
       \<noteq> cwd nested_cwd"
proof -
  have removed: "with_push_dir (Some ''C:/b'') True (shutil_rmtree [''C:'', ''a'']) nested_cwd
     = (Inl (OSError ENOENT),
        nested_cwd\<lparr>cwd := [''C:'', ''b''], fs := Dir [(''C:'', Dir [(''b'', Dir [])])]\<rparr>)"
    by (simp add: nested_cwd_def with_push_dir_def with_self_def outside_def push_dir_enter_def
        push_dir_init_def push_dir_exit_def py_eval fs_eval)
  have again: "with_self (with_self (outside (return ()))) (push_dir_init (Some ''C:/b'') True, nested_cwd)
     = (Inr (),
        (\<lparr>directory = Some ''C:/b'', make_directory = True, old_cwd = Some [''C:'', ''b'']\<rparr>,
         nested_cwd\<lparr>cwd := [''C:'', ''b''],
                      fs := Dir [(''C:'', Dir [(''a'', Dir []), (''b'', Dir [])])]\<rparr>))"
    by (simp add: nested_cwd_def with_self_def outside_def push_dir_enter_def
        push_dir_init_def push_dir_exit_def py_eval fs_eval)
  from removed again show ?thesis
    by (simp add: push_dir_call_def) (simp add: nested_cwd_def)
qed

subsection \<open>C6: prepare_build_env without the interpreter\<close>

text \<open>
  C6. For every version identifier, when \<open>C:/Python<version>\<close> does not
  exist, \<open>prepare_build_env\<close> raises \<open>FileNotFoundError\<close> with the
  message naming that directory and leaves the world as it was: no program
  has been started (no virtual environment made, no package installed) and
  the file system is untouched.
\<close>

theorem prepare_build_env_missing_root:
  assumes "\<not> os_path_exists (''C:/Python'' @ python_version) w"
  shows "prepare_build_env h python_version w
         = (Inl (FileNotFoundError
              (''Aborting. python_dir [C:/Python'' @ python_version @ ''] does not exist.'')), w)"
  using assms by (simp add: prepare_build_env_def raise_def)

theorem prepare_build_env_missing_root_witness:
  "\<not> os_path_exists (''C:/Python'' @ ''27-x64'') drive_before
   \<and> prepare_build_env single_host ''27-x64'' drive_before
       = (Inl (FileNotFoundError ''Aborting. python_dir [C:/Python27-x64] does not exist.''),
          drive_before)"
proof -
  have missing: "\<not> os_path_exists (''C:/Python'' @ ''27-x64'') drive_before"
    by (simp add: drive_before_def fs_eval)
  from prepare_build_env_missing_root [OF missing, of single_host] missing
  show ?thesis by simp
qed

subsection \<open>Writing and removing files\<close>

lemma lookup_removed:
  assumes "p \<noteq> []" and "lookup (butlast p) t = Some n"
  shows "lookup p (alter (butlast p) (drop_entry (last p)) t) = None"
proof -
  have "lookup [last p] (drop_entry (last p) n) = None"
    by (cases n) (simp_all add: drop_entry_def AList.delete_conv')
  with lookup_alter [OF assms(2), of "[last p]" "drop_entry (last p)"] assms(1)
  show ?thesis by simp
qed


lemma named_temporary_file_created:
  assumes "named_temporary_file h w = (Inr name, w1)"
  shows "name = temp_name h \<and> located name w \<noteq> [] \<and> cwd w1 = cwd w"
  using assms
  by (auto simp: named_temporary_file_def bind_def return_def change_fs_def write_node_def
      split: if_splits sum.splits option.splits node.splits)

lemma write_node_over_file:
  assumes ne: "p \<noteq> []" and f: "lookup p t = Some (File s0)"
  shows "\<exists>t'. write_node p s t = Inr t' \<and> lookup p t' = Some (File s)"
proof -
  from lookup_butlast [OF ne f] obtain es where
    par: "lookup (butlast p) t = Some (Dir es)" and ent: "map_of es (last p) = Some (File s0)"
    by blast
  let ?f = "\<lambda>d. Dir (AList.update (last p) (File s) es)"
  have "lookup [last p] (?f (Dir es)) = Some (File s)"
    by (simp add: update_conv')
  with lookup_alter [OF par, of "[last p]" ?f] ne
  have "lookup p (alter (butlast p) ?f t) = Some (File s)" by simp
  moreover from ne par ent have "write_node p s t = Inr (alter (butlast p) ?f t)"
    by (simp add: write_node_def is_dir_def)
  ultimately show ?thesis by simp
qed

lemma write_node_written:
  assumes "write_node p s t = Inr t'"
  shows "p \<noteq> [] \<and> lookup p t' = Some (File s)"
proof -
  from assms have ne: "p \<noteq> []" by (auto simp: write_node_def)
  from assms ne obtain es where par: "lookup (butlast p) t = Some (Dir es)"
    and t': "t' = alter (butlast p) (\<lambda>d. Dir (AList.update (last p) (File s) es)) t"
    by (auto simp: write_node_def split: option.splits node.splits if_splits)
  have "lookup [last p] (Dir (AList.update (last p) (File s) es)) = Some (File s)"
    by (simp add: update_conv')
  with lookup_alter [OF par, of "[last p]" "\<lambda>d. Dir (AList.update (last p) (File s) es)"] t' ne
  show ?thesis by simp
qed

lemma named_temporary_file_made:
  assumes "named_temporary_file h w = (Inr name, w1)"
  shows "\<exists>t. w1 = w\<lparr>fs := t\<rparr> \<and> lookup (located name w) t = Some (File [])"
  using assms write_node_written [of "located (temp_name h) w" "[]" "fs w"]
  by (auto simp: named_temporary_file_def bind_def return_def change_fs_def
      split: if_splits sum.splits)

lemma remove_node_file:
  assumes "is_file (lookup p t)" and "p \<noteq> []"
  shows "remove_node p t = Inr (alter (butlast p) (drop_entry (last p)) t)"
  using assms by (auto simp: remove_node_def is_file_def split: option.splits node.splits)

lemma remove_node_no_file:
  assumes "\<not> is_file (lookup p t)"
  shows "remove_node p t = Inl (OSError (if lookup p t = None then ENOENT else EACCES))"
  using assms by (auto simp: remove_node_def is_file_def split: option.splits node.splits)

subsection \<open>The programs a run starts\<close>

lemma performs_quiet:
  "calls (snd (m w)) = calls w \<Longrightarrow> performs m w []"
  by (simp add: performs_def)

lemma performs_return: "performs (return x) w []"
  by (simp add: performs_def return_def)

lemma performs_raise: "performs (raise e) w []"
  by (simp add: performs_def raise_def)

lemma performs_check_call: "performs (check_call h args) w [args]"
  by (auto simp: performs_def check_call_def started_def split: prod.splits)

lemma performs_check_output: "performs (check_output h args) w [args]"
  by (auto simp: performs_def check_output_def started_def split: prod.splits)

lemma performs_bind:
  assumes m: "performs m w L1"
    and k: "\<And>x w1. m w = (Inr x, w1) \<Longrightarrow> performs (k x) w1 L2"
  shows "performs (bind m k) w (L1 @ L2)"
proof -
  obtain r w1 where mw: "m w = (r, w1)" by (cases "m w")
  from m mw obtain cs1 where c1: "calls w1 = calls w @ cs1"
    and p1: "prefix (map call_args cs1) L1"
    and f1: "isl r \<or> map call_args cs1 = L1"
    unfolding performs_def by auto
  show ?thesis
  proof (cases r)
    case (Inl e)
    with mw have "bind m k w = (Inl e, w1)" by (simp add: bind_def)
    moreover from p1 have "prefix (map call_args cs1) (L1 @ L2)" by (rule prefix_prefix)
    ultimately show ?thesis using c1 unfolding performs_def by auto
  next
    case (Inr x)
    with f1 have full1: "map call_args cs1 = L1" by simp
    obtain r2 w2 where kw: "k x w1 = (r2, w2)" by (cases "k x w1")
    from k [of x w1] mw Inr kw obtain cs2 where c2: "calls w2 = calls w1 @ cs2"
      and p2: "prefix (map call_args cs2) L2"
      and f2: "isl r2 \<or> map call_args cs2 = L2"
      unfolding performs_def by auto
    from mw Inr kw have b: "bind m k w = (r2, w2)" by (simp add: bind_def)
    have "calls w2 = calls w @ (cs1 @ cs2)" using c1 c2 by simp
    moreover have "prefix (map call_args (cs1 @ cs2)) (L1 @ L2)"
      using full1 p2 by simp
    moreover have "isl r2 \<or> map call_args (cs1 @ cs2) = L1 @ L2"
      using full1 f2 by auto
    ultimately show ?thesis using b unfolding performs_def by auto
  qed
qed

lemma performs_bind_quiet_first:
  assumes "performs m w []"
    and "\<And>x w1. m w = (Inr x, w1) \<Longrightarrow> performs (k x) w1 L"
  shows "performs (bind m k) w L"
  using performs_bind [OF assms] by simp

lemma performs_try_finally:
  assumes b: "performs body w L"
    and h: "\<And>r w1. body w = (r, w1) \<Longrightarrow> calls (snd (handler w1)) = calls w1"
  shows "performs (try_finally body handler) w L"
proof -
  obtain r w1 where bw: "body w = (r, w1)" by (cases "body w")
  obtain r2 w2 where hw: "handler w1 = (r2, w2)" by (cases "handler w1")
  from h [OF bw] hw have same: "calls w2 = calls w1" by simp
  have res: "snd (try_finally body handler w) = w2"
    using bw hw by (simp add: try_finally_def split: sum.splits)
  have "isl (fst (body w)) \<Longrightarrow> isl (fst (try_finally body handler w))"
    using bw hw by (auto simp: try_finally_def split: sum.splits)
  with b res same bw show ?thesis
    by (auto simp: performs_def)
qed

lemma performs_with_generator:
  assumes e: "\<And>w. calls (snd (before w)) = calls w"
    and a: "\<And>s w. calls (snd (after s w)) = calls w"
    and b: "\<And>s w0. before w = (Inr s, w0) \<Longrightarrow> performs body w0 L"
  shows "performs (with_generator before after body) w L"
proof -
  obtain r0 w0 where bw: "before w = (r0, w0)" by (cases "before w")
  from e [of w] bw have c0: "calls w0 = calls w" by simp
  show ?thesis
  proof (cases r0)
    case (Inl err)
    with bw c0 show ?thesis
      by (auto simp: performs_def with_generator_def bind_def)
  next
    case (Inr s)
    obtain r1 w1 where body: "body w0 = (r1, w1)" by (cases "body w0")
    obtain r2 w2 where aft: "after s w1 = (r2, w2)" by (cases "after s w1")
    from a [of s w1] aft have c2: "calls w2 = calls w1" by simp
    from b [of s w0] bw Inr body obtain cs where
      "calls w1 = calls w0 @ cs" "prefix (map call_args cs) L" "isl r1 \<or> map call_args cs = L"
      unfolding performs_def by auto
    with bw Inr body aft c0 c2 show ?thesis
      by (cases r1; cases r2) (auto simp: performs_def with_generator_def bind_def)
  qed
qed

lemma performs_for_each:
  assumes "\<And>x w. x \<in> set xs \<Longrightarrow> performs (f x) w (g x)"
  shows "performs (for_each xs f) w (concat (map g xs))"
  using assms
proof (induction xs arbitrary: w)
  case Nil
  show ?case by (simp add: performs_return)
next
  case (Cons x xs)
  have "performs (bind (f x) (\<lambda>u. for_each xs f)) w (g x @ concat (map g xs))"
    by (rule performs_bind) (simp_all add: Cons)
  then show ?case by simp
qed

lemma change_fs_calls: "calls (snd (change_fs f w)) = calls w"
  by (simp add: change_fs_def split: sum.splits)

lemma os_chdir_calls: "calls (snd (os_chdir p w)) = calls w"
  by (simp add: os_chdir_def split: option.splits node.splits)

lemma os_makedirs_calls: "calls (snd (os_makedirs name w)) = calls w"
proof (induction name w rule: os_makedirs.induct)
  case (1 name w)
  have mk: "calls (snd (os_mkdir name w')) = calls w'" for w'
    by (simp add: os_mkdir_def change_fs_calls)
  show ?case
  proof (cases "name \<noteq> [] \<and> lookup (butlast name) (fs w) = None")
    case True
    obtain r w1 where rec: "os_makedirs (butlast name) w = (r, w1)"
      by (cases "os_makedirs (butlast name) w")
    with 1 True have "calls w1 = calls w" by simp
    with True rec mk [of w1] show ?thesis
      by (subst os_makedirs.simps) (auto split: sum.splits)
  next
    case False
    with mk [of w] show ?thesis by (subst os_makedirs.simps) auto
  qed
qed

lemma mkdir_p_calls: "calls (snd (mkdir_p name w)) = calls w"
  using os_makedirs_calls [of "located name w" w]
  by (auto simp: mkdir_p_def split: prod.splits sum.splits exn.splits)

lemma bind_calls:
  assumes "\<And>w. calls (snd (m w)) = calls w" and "\<And>x w. calls (snd (k x w)) = calls w"
  shows "calls (snd (bind m k w)) = calls w"
proof -
  obtain r w1 where mw: "m w = (r, w1)" by (cases "m w")
  with assms(1) [of w] have "calls w1 = calls w" by simp
  with mw assms(2) show ?thesis by (cases r) (simp_all add: bind_def)
qed

lemma outside_calls:
  "calls (snd (snd (outside m (self, w)))) = calls (snd (m w))"
  by (simp add: outside_def split: prod.splits)

lemma push_dir_enter_calls: "calls (snd (snd (push_dir_enter (self, w)))) = calls w"
proof -
  have ch: "calls (snd (os_chdir (located d w1) w1)) = calls w1" for d w1
    by (rule os_chdir_calls)
  have inner: "calls (snd (bind (if m then mkdir_p d else return ())
                  (\<lambda>u w1. os_chdir (located d w1) w1) w)) = calls w"
    for m d
    by (intro bind_calls) (simp_all add: mkdir_p_calls return_def ch)
  show ?thesis
    by (simp add: push_dir_enter_def Let_def outside_calls inner split: option.splits)
qed

lemma push_dir_exit_calls: "calls (snd (snd (push_dir_exit (self, w)))) = calls w"
  by (simp add: push_dir_exit_def outside_calls raise_def os_chdir_calls split: option.splits)

lemma push_env_before_yield_calls: "calls (snd (push_env_before_yield kwargs w)) = calls w"
  by (simp add: push_env_before_yield_def Let_def)

lemma push_env_after_yield_calls: "calls (snd (push_env_after_yield saved w)) = calls w"
  by (simp add: push_env_after_yield_def Let_def)

lemma performs_push_env:
  assumes "\<And>s w0. push_env_before_yield kwargs w = (Inr s, w0) \<Longrightarrow> performs body w0 L"
  shows "performs (push_env kwargs body) w L"
  unfolding push_env_def
  by (rule performs_with_generator)
     (simp_all add: push_env_before_yield_calls push_env_after_yield_calls assms)

lemma performs_with_push_dir:
  assumes "\<And>w0. performs body w0 L"
  shows "performs (with_push_dir d m body) w L"
proof -
  obtain r0 self0 w0 where en: "push_dir_enter (push_dir_init d m, w) = (r0, (self0, w0))"
    by (cases "push_dir_enter (push_dir_init d m, w)") auto
  from push_dir_enter_calls [of "push_dir_init d m" w] en have c0: "calls w0 = calls w" by simp
  show ?thesis
  proof (cases r0)
    case (Inl e)
    with en c0 show ?thesis
      by (simp add: performs_def with_push_dir_def with_self_def with_class_def bind_def)
  next
    case (Inr u)
    obtain r1 w1 where body: "body w0 = (r1, w1)" by (cases "body w0")
    obtain r2 self2 w2 where ex: "push_dir_exit (self0, w1) = (r2, (self2, w2))"
      by (cases "push_dir_exit (self0, w1)") auto
    from push_dir_exit_calls [of self0 w1] ex have c2: "calls w2 = calls w1" by simp
    from assms [of w0] body obtain cs where
      "calls w1 = calls w0 @ cs" "prefix (map call_args cs) L" "isl r1 \<or> map call_args cs = L"
      unfolding performs_def by auto
    with en Inr body ex c0 c2 show ?thesis
      by (cases r1; cases r2)
         (auto simp: performs_def with_push_dir_def with_self_def with_class_def bind_def
            try_finally_def outside_def)
  qed
qed

lemma clean_previous_calls: "calls (snd (clean_previous v w)) = calls w"
  by (simp add: clean_previous_def shutil_rmtree_def change_fs_calls return_def)

lemma for_each_calls:
  assumes "\<And>x w. calls (snd (f x w)) = calls w"
  shows "calls (snd (for_each xs f w)) = calls w"
proof (induction xs arbitrary: w)
  case Nil
  show ?case by (simp add: return_def)
next
  case (Cons x xs)
  show ?case by (simp, rule bind_calls) (simp_all add: assms Cons)
qed

lemma remove_if_unnecessary_calls: "calls (snd (remove_if_unnecessary root filename w)) = calls w"
  by (simp add: remove_if_unnecessary_def Let_def os_remove_def change_fs_calls return_def)

lemma post_build_cleanup_calls: "calls (snd (post_build_cleanup v w)) = calls w"
proof -
  have a: "calls (snd (remove_unnecessary_files v w)) = calls w" for w
    unfolding remove_unnecessary_files_def
    by (rule for_each_calls) (auto intro: for_each_calls simp: remove_if_unnecessary_calls)
  have b: "calls (snd (remove_generators v w)) = calls w" for w
    by (simp add: remove_generators_def shutil_rmtree_def change_fs_calls)
  show ?thesis unfolding post_build_cleanup_def by (rule bind_calls) (simp_all add: a b)
qed

lemma performs_build_single_wheel:
  "performs (build_single_wheel h v) w
     [configure_args h v ''itk'', single_wheel_args h v, clean_args h v]"
proof -
  have "performs (build_single_wheel h v) w
     ([configure_args h v ''itk''] @ [single_wheel_args h v] @ [clean_args h v])"
    unfolding build_single_wheel_def
    by (intro performs_bind performs_check_call)
  then show ?thesis by simp
qed

lemma performs_build_one_wheel:
  "performs (build_one_wheel h v name) w
     [configure_args h v name, wheel_args h v name, clean_args h v]"
proof -
  have "performs (build_one_wheel h v name) w
     ([configure_args h v name] @ [wheel_args h v name] @ [clean_args h v])"
    unfolding build_one_wheel_def
    by (intro performs_bind performs_check_call)
  then show ?thesis by simp
qed

lemma bind_assoc: "bind (bind m k) k' = bind m (\<lambda>x. bind (k x) k')"
  by (rule ext) (simp add: bind_def split: prod.splits sum.splits)

lemma performs_bind_dep:
  assumes m: "performs m w L1"
    and k: "\<And>x w1. m w = (Inr x, w1) \<Longrightarrow> performs (k x) w1 (g x)"
  shows "performs (bind m k) w (L1 @ (case fst (m w) of Inl e \<Rightarrow> [] | Inr x \<Rightarrow> g x))"
  by (rule performs_bind [OF m]) (simp add: k)

lemma named_temporary_file_calls: "calls (snd (named_temporary_file h w)) = calls w"
  by (simp add: named_temporary_file_def bind_def return_def change_fs_def split: sum.splits)

lemma file_write_calls: "calls (snd (file_write name text w)) = calls w"
  by (simp add: file_write_def change_fs_calls)

lemma read_wheel_names_calls: "calls (snd (read_wheel_names h w)) = calls w"
  by (simp add: read_wheel_names_def split: sum.splits)

lemma performs_generator_env:
  "performs (generator_env h v) w [[python_executable h v, temp_name h]]"
proof -
  obtain r w1 where nt: "named_temporary_file h w = (r, w1)"
    by (cases "named_temporary_file h w")
  from named_temporary_file_calls [of h w] nt have c1: "calls w1 = calls w" by simp
  show ?thesis
  proof (cases r)
    case (Inl e)
    with nt c1 show ?thesis by (simp add: generator_env_def performs_def)
  next
    case (Inr name)
    with nt have name: "name = temp_name h"
      using named_temporary_file_created [of h w name w1] by simp
    let ?decode = "\<lambda>output. case json_loads h (strip output) of
                               Inl e \<Rightarrow> raise e
                             | Inr build_env \<Rightarrow> return build_env"
    let ?body = "bind (file_write name helper_script)
               (\<lambda>u. bind (check_output h [python_executable h v, name]) ?decode)"
    have dec: "performs (?decode out) w' []" for out w'
      by (cases "json_loads h (strip out)") (simp_all add: performs_raise performs_return)
    have "performs ?body w1 ([] @ [[python_executable h v, name]] @ [])"
      by (intro performs_bind performs_quiet file_write_calls performs_check_output dec)
    then have "performs (try_finally ?body (\<lambda>w2. os_remove (located name w2) w2)) w1
        [[python_executable h v, name]]"
      by (intro performs_try_finally) (simp_all add: os_remove_def change_fs_calls)
    with nt Inr c1 name show ?thesis
      by (simp add: generator_env_def performs_def)
  qed
qed

lemma performs_build_itk_python:
  "performs (build_itk_python h v build_env) w [cmake_args h v, [ninja_executable h]]"
proof -
  have "performs (bind (check_call h (cmake_args h v)) (\<lambda>u. check_call h [ninja_executable h])) w0
      ([cmake_args h v] @ [[ninja_executable h]])" for w0
    by (intro performs_bind performs_check_call)
  then show ?thesis
    unfolding build_itk_python_def
    by (intro performs_with_push_dir performs_push_env) simp
qed

lemma performs_build_multiple_wheels:
  "performs (build_multiple_wheels h v) w
     ([[python_executable h v, temp_name h], cmake_args h v, [ninja_executable h]]
      @ wheel_steps h v (wheel_names_read h v w))"
proof -
  let ?m = "bind (generator_env h v)
              (\<lambda>build_env. bind (build_itk_python h v build_env) (\<lambda>u. read_wheel_names h))"
  let ?k = "\<lambda>wheel_names. for_each (map (\<lambda>c. [c]) wheel_names) (build_one_wheel h v)"
  have eq: "build_multiple_wheels h v = bind ?m ?k"
    by (simp add: build_multiple_wheels_def bind_assoc)
  have m: "performs ?m w
      ([[python_executable h v, temp_name h]] @ [cmake_args h v, [ninja_executable h]] @ [])"
    by (intro performs_bind performs_generator_env performs_build_itk_python performs_quiet
          read_wheel_names_calls)
  have k: "performs (?k names) w1 (wheel_steps h v names)" for names w1
  proof -
    have "performs (for_each (map (\<lambda>c. [c]) names) (build_one_wheel h v)) w1
        (concat (map (\<lambda>n. [configure_args h v n, wheel_args h v n, clean_args h v])
                   (map (\<lambda>c. [c]) names)))"
      by (rule performs_for_each) (rule performs_build_one_wheel)
    then show ?thesis by (simp add: wheel_steps_def comp_def)
  qed
  have steps: "(case fst (?m w) of Inl e \<Rightarrow> [] | Inr x \<Rightarrow> wheel_steps h v x)
      = wheel_steps h v (wheel_names_read h v w)"
    by (simp add: wheel_names_read_def wheel_steps_def split: sum.splits)
  from performs_bind_dep [of ?m w _ ?k "wheel_steps h v", OF m k] steps eq
  show ?thesis by simp
qed

lemma performs_build_wheel:
  "\<exists>L. performs (bind (clean_previous v)
                    (\<lambda>u. bind (if single_wheel then build_single_wheel h v
                                else build_multiple_wheels h v)
                      (\<lambda>u. post_build_cleanup v))) w L"
proof (cases single_wheel)
  case True
  have "performs (bind (clean_previous v)
                    (\<lambda>u. bind (build_single_wheel h v) (\<lambda>u. post_build_cleanup v))) w
      ([] @ [configure_args h v ''itk'', single_wheel_args h v, clean_args h v] @ [])"
    by (intro performs_bind performs_build_single_wheel performs_quiet
          clean_previous_calls post_build_cleanup_calls)
  with True show ?thesis by auto
next
  case False
  let ?L = "\<lambda>w1. [[python_executable h v, temp_name h], cmake_args h v, [ninja_executable h]]
      @ wheel_steps h v (wheel_names_read h v w1)"
  have "performs (bind (clean_previous v)
                    (\<lambda>u. bind (build_multiple_wheels h v) (\<lambda>u. post_build_cleanup v))) w
      ([] @ (case fst (clean_previous v w) of Inl e \<Rightarrow> []
             | Inr x \<Rightarrow> ?L (snd (clean_previous v w)) @ []))"
  proof (rule performs_bind_dep)
    show "performs (clean_previous v) w []"
      by (rule performs_quiet) (rule clean_previous_calls)
  next
    fix x w1
    assume "clean_previous v w = (Inr x, w1)"
    then have w1: "snd (clean_previous v w) = w1" by simp
    have "performs (bind (build_multiple_wheels h v) (\<lambda>u. post_build_cleanup v)) w1 (?L w1 @ [])"
      by (intro performs_bind performs_build_multiple_wheels performs_quiet
            post_build_cleanup_calls)
    with w1 show "performs (bind (build_multiple_wheels h v) (\<lambda>u. post_build_cleanup v)) w1
        (?L (snd (clean_previous v w)) @ [])" by simp
  qed
  with False show ?thesis by auto
qed

subsection \<open>Evaluating a build on the example worlds\<close>

lemma located_build_path [simp]:
  "located (build_path ''27-x64'') w = [''C:'', ''P'', ''IPP'', ''ITK-win_27-x64'']"
  by (simp add: build_path_def located_def resolve_def isabs_def splitdrive_def seps_def
      resolve_step_def)

lemma build_path_nonempty [simp]: "build_path v \<noteq> []"
  by (simp add: build_path_def)

lemma located_generators [simp]:
  "located (os_path_join (build_path ''27-x64'') [''Wrapping'', ''Generators'']) w
   = [''C:'', ''P'', ''IPP'', ''ITK-win_27-x64'', ''Wrapping'', ''Generators'']"
  by (simp add: build_path_def located_def resolve_def isabs_def splitdrive_def seps_def
      resolve_step_def os_path_join_def join_step_def sep_def)

lemma located_temp [simp]:
  "located ''C:/tmpabc.py'' w = [''C:'', ''tmpabc.py'']"
  by (simp add: located_def resolve_def isabs_def splitdrive_def seps_def resolve_step_def)

lemma located_manifest [simp]:
  "located (os_path_join ''C:/IPP/scripts'' [''..'', ''WHEEL_NAMES.txt'']) w
   = [''C:'', ''IPP'', ''WHEEL_NAMES.txt'']"
  by (simp add: located_def resolve_def isabs_def splitdrive_def seps_def
      resolve_step_def os_path_join_def join_step_def sep_def)

lemmas build_eval =
  build_wheel_def push_env_def push_env_before_yield_def push_env_after_yield_def
  push_env_change_def install_dependencies_def clean_previous_def build_single_wheel_def
  build_multiple_wheels_def generator_env_def named_temporary_file_def file_write_def
  build_itk_python_def with_push_dir_def with_self_def outside_def
  push_dir_enter_def push_dir_init_def push_dir_exit_def
  read_wheel_names_def readline_def build_one_wheel_def post_build_cleanup_def
  remove_unnecessary_files_def remove_generators_def remove_if_unnecessary_def os_walk_def
  check_call_def check_output_def started_def splitext_def
  py_eval
  os_makedirs.simps os_mkdir_def os_remove_def shutil_rmtree_def os_chdir_def change_fs_def
  mkdir_node_def remove_node_def rmtree_node_def write_node_def read_node_def drop_entry_def
  os_path_isdir_def os_path_isfile_def os_path_exists_def is_dir_def is_file_def
  mkdir_p_def

lemma single_host_sel:
  "SCRIPT_DIR single_host = ''C:/IPP/scripts''" "ROOT_DIR single_host = ''C:/IPP''"
  "run single_host = (\<lambda>args e c t. (0, [], built_tree))"
  "json_loads single_host = (\<lambda>s. Inr [])" "temp_name single_host = ''C:/tmpabc.py''"
  by (simp_all add: single_host_def)

lemma multi_host_sel:
  "SCRIPT_DIR multi_host = ''C:/IPP/scripts''" "ROOT_DIR multi_host = ''C:/IPP''"
  "run multi_host = (\<lambda>args e c t. (0, ''{}'',
               alter [''C:'', ''P'', ''IPP'', ''ITK-win_27-x64'']
                 (\<lambda>d. Dir [(''Wrapping'', Dir [(''Generators'', Dir [])])]) t))"
  "json_loads multi_host = (\<lambda>s. Inr [])" "temp_name multi_host = ''C:/tmpabc.py''"
  by (simp_all add: multi_host_def)

lemma failing_host_sel:
  "run failing_host = (\<lambda>args e c t. (1, [], t))"
  "json_loads failing_host = (\<lambda>s. Inl (ValueError ''Expecting value''))"
  "temp_name failing_host = ''C:/tmpabc.py''"
  by (simp_all add: failing_host_def)

subsection \<open>C8: the helper script is deleted\<close>

text \<open>
  C8. Once \<open>NamedTemporaryFile\<close> has made the helper file, the script
  is written into it, and the helper program is started exactly once, with
  the interpreter of the version and the file's name as its arguments, on a
  file system in which the file holds the script. Whatever the program does,
  whatever its exit status and whether or not its output can be decoded, no
  regular file is left at the name when the \<open>try\<close> statement is over;
  the environment and the working directory are as before. If the program
  has left the file in place, the file system afterwards is the one the
  program left with that one entry removed, and the result is the decoded
  output when the status is zero and the decoder accepts it, the decoder's
  exception when it does not, and \<open>CalledProcessError\<close> when the status
  is not zero. If the program has itself removed the file, \<open>os.remove\<close>
  raises in the \<open>finally\<close> block and its error is the result.
\<close>

theorem helper_script_deleted:
  assumes "named_temporary_file h w = (Inr name, w1)"
  shows "\<exists>t_in. write_node (located name w) helper_script (fs w1) = Inr t_in
      \<and> lookup (located name w) t_in = Some (File helper_script)
      \<and> (case run h [python_executable h v, name] (environ w) (cwd w) t_in of
           (status, out, t_out) \<Rightarrow>
             calls (snd (generator_env h v w))
               = calls w @ [\<lparr>call_args = [python_executable h v, name],
                              call_env = environ w, call_cwd = cwd w\<rparr>]
           \<and> environ (snd (generator_env h v w)) = environ w
           \<and> cwd (snd (generator_env h v w)) = cwd w
           \<and> \<not> os_path_isfile name (snd (generator_env h v w))
           \<and> (if is_file (lookup (located name w) t_out)
              then fs (snd (generator_env h v w))
                     = alter (butlast (located name w)) (drop_entry (last (located name w))) t_out
                 \<and> lookup (located name w) (fs (snd (generator_env h v w))) = None
                 \<and> fst (generator_env h v w)
                     = (if status = 0 then json_loads h (strip out)
                        else Inl (CalledProcessError status [python_executable h v, name]))
              else fs (snd (generator_env h v w)) = t_out
                 \<and> fst (generator_env h v w)
                     = Inl (OSError (if lookup (located name w) t_out = None
                                       then ENOENT else EACCES))))"
proof -
  let ?p = "located name w"
  let ?args = "[python_executable h v, name]"
  let ?call = "\<lparr>call_args = ?args, call_env = environ w, call_cwd = cwd w\<rparr>"
  from named_temporary_file_created [OF assms] have ne: "?p \<noteq> []" by blast
  from named_temporary_file_made [OF assms] obtain t1 where
    w1: "w1 = w\<lparr>fs := t1\<rparr>" and made: "lookup ?p t1 = Some (File [])" by blast
  from write_node_over_file [OF ne made, of helper_script] obtain t_in where
    wr: "write_node ?p helper_script t1 = Inr t_in"
    and on_disk: "lookup ?p t_in = Some (File helper_script)" by blast
  obtain status out t_out where
    ran: "run h ?args (environ w) (cwd w) t_in = (status, out, t_out)"
    by (cases "run h ?args (environ w) (cwd w) t_in")
  let ?w3 = "w\<lparr>fs := t_out, calls := calls w @ [?call]\<rparr>"
  let ?r = "if status = 0 then json_loads h (strip out)
            else Inl (CalledProcessError status ?args)"
  let ?body = "bind (file_write name helper_script)
               (\<lambda>u. bind (check_output h ?args)
                 (\<lambda>output. case json_loads h (strip output) of
                               Inl e \<Rightarrow> raise e
                             | Inr build_env \<Rightarrow> return build_env))"
  have body: "?body w1 = (?r, ?w3)"
    using wr ran w1
    by (simp add: bind_def file_write_def change_fs_def located_def check_output_def
        started_def raise_def return_def split: sum.splits)
  have loc: "located name ?w3 = ?p" by (simp add: located_def)
  have gen: "generator_env h v w = try_finally ?body (\<lambda>w2. os_remove (located name w2) w2) w1"
    using assms by (simp add: generator_env_def)
  have result: "generator_env h v w
      = (case remove_node ?p t_out of
           Inl e \<Rightarrow> (Inl e, ?w3)
         | Inr t \<Rightarrow> (?r, ?w3\<lparr>fs := t\<rparr>))"
    by (simp add: gen try_finally_def body loc os_remove_def change_fs_def split: sum.splits)
  have rest: "calls (snd (generator_env h v w)) = calls w @ [?call]
           \<and> environ (snd (generator_env h v w)) = environ w
           \<and> cwd (snd (generator_env h v w)) = cwd w
           \<and> \<not> os_path_isfile name (snd (generator_env h v w))
           \<and> (if is_file (lookup ?p t_out)
              then fs (snd (generator_env h v w))
                     = alter (butlast ?p) (drop_entry (last ?p)) t_out
                 \<and> lookup ?p (fs (snd (generator_env h v w))) = None
                 \<and> fst (generator_env h v w) = ?r
              else fs (snd (generator_env h v w)) = t_out
                 \<and> fst (generator_env h v w)
                     = Inl (OSError (if lookup ?p t_out = None then ENOENT else EACCES)))"
  proof (cases "is_file (lookup ?p t_out)")
    case True
    then obtain s where f: "lookup ?p t_out = Some (File s)"
      by (auto simp: is_file_def split: option.splits node.splits)
    from lookup_butlast [OF ne f] obtain es where "lookup (butlast ?p) t_out = Some (Dir es)"
      by blast
    from lookup_removed [OF ne this]
    have gone: "lookup ?p (alter (butlast ?p) (drop_entry (last ?p)) t_out) = None" .
    from remove_node_file [OF True ne] result
    have "generator_env h v w = (?r, ?w3\<lparr>fs := alter (butlast ?p) (drop_entry (last ?p)) t_out\<rparr>)"
      by simp
    with True gone show ?thesis
      by (simp add: os_path_isfile_def located_def is_file_def)
  next
    case False
    from remove_node_no_file [OF False] result
    have "generator_env h v w
        = (Inl (OSError (if lookup ?p t_out = None then ENOENT else EACCES)), ?w3)"
      by simp
    with False show ?thesis
      by (simp add: os_path_isfile_def located_def)
  qed
  from wr w1 have written: "write_node ?p helper_script (fs w1) = Inr t_in" by simp
  show ?thesis
    by (rule exI [of _ t_in], intro conjI written on_disk, unfold ran prod.case) (rule rest)
qed


theorem helper_script_deleted_witness:
  "named_temporary_file failing_host drive_before
     = (Inr ''C:/tmpabc.py'',
        drive_before\<lparr>fs := Dir [(''C:'', Dir [(''f.txt'', File ''x''), (''tmpabc.py'', File [])])]\<rparr>)
   \<and> fst (generator_env failing_host ''27-x64'' drive_before)
     = Inl (CalledProcessError 1 [python_executable failing_host ''27-x64'', ''C:/tmpabc.py''])
   \<and> fs (snd (generator_env failing_host ''27-x64'' drive_before)) = fs drive_before
   \<and> map call_args (calls (snd (generator_env failing_host ''27-x64'' drive_before)))
     = [[python_executable failing_host ''27-x64'', ''C:/tmpabc.py'']]
   \<and> fst (generator_env multi_host ''27-x64'' drive_before) = Inr []
   \<and> fs (snd (generator_env multi_host ''27-x64'' drive_before)) = fs drive_before
   \<and> map call_args (calls (snd (generator_env multi_host ''27-x64'' drive_before)))
     = [[python_executable multi_host ''27-x64'', ''C:/tmpabc.py'']]
   \<and> fst (generator_env single_host ''27-x64'' drive_before) = Inl (OSError ENOENT)
   \<and> fs (snd (generator_env single_host ''27-x64'' drive_before)) = built_tree"
proof -
  let ?made = "drive_before\<lparr>fs := Dir [(''C:'', Dir [(''f.txt'', File ''x''), (''tmpabc.py'', File [])])]\<rparr>"
  let ?t_in = "Dir [(''C:'', Dir [(''f.txt'', File ''x''), (''tmpabc.py'', File helper_script)])]"
  have before: "environ drive_before = []" "cwd drive_before = [''C:'']" "calls drive_before = []"
    "fs drive_before = Dir [(''C:'', Dir [(''f.txt'', File ''x'')])]"
    by (simp_all add: drive_before_def)
  have made1: "named_temporary_file failing_host drive_before = (Inr ''C:/tmpabc.py'', ?made)"
    by (simp add: named_temporary_file_def failing_host_sel drive_before_def py_eval fs_eval)
  have made2: "named_temporary_file multi_host drive_before = (Inr ''C:/tmpabc.py'', ?made)"
    by (simp add: named_temporary_file_def multi_host_sel drive_before_def py_eval fs_eval)
  have made3: "named_temporary_file single_host drive_before = (Inr ''C:/tmpabc.py'', ?made)"
    by (simp add: named_temporary_file_def single_host_sel drive_before_def py_eval fs_eval)
  have written: "write_node [''C:'', ''tmpabc.py''] helper_script
      (Dir [(''C:'', Dir [(''f.txt'', File ''x''), (''tmpabc.py'', File [])])]) = Inr ?t_in"
    by (simp add: write_node_def is_dir_def)
  from helper_script_deleted [OF made1, of "''27-x64''"]
  have one: "fst (generator_env failing_host ''27-x64'' drive_before)
       = Inl (CalledProcessError 1 [python_executable failing_host ''27-x64'', ''C:/tmpabc.py''])
     \<and> fs (snd (generator_env failing_host ''27-x64'' drive_before)) = fs drive_before
     \<and> map call_args (calls (snd (generator_env failing_host ''27-x64'' drive_before)))
       = [[python_executable failing_host ''27-x64'', ''C:/tmpabc.py'']]"
    by (simp add: before written failing_host_sel is_file_def drop_entry_def)
  from helper_script_deleted [OF made2, of "''27-x64''"]
  have two: "fst (generator_env multi_host ''27-x64'' drive_before) = Inr []
     \<and> fs (snd (generator_env multi_host ''27-x64'' drive_before)) = fs drive_before
     \<and> map call_args (calls (snd (generator_env multi_host ''27-x64'' drive_before)))
       = [[python_executable multi_host ''27-x64'', ''C:/tmpabc.py'']]"
    by (simp add: before written multi_host_sel is_file_def drop_entry_def)
  from helper_script_deleted [OF made3, of "''27-x64''"]
  have three: "fst (generator_env single_host ''27-x64'' drive_before) = Inl (OSError ENOENT)
     \<and> fs (snd (generator_env single_host ''27-x64'' drive_before)) = built_tree"
    by (simp add: before written single_host_sel built_tree_def is_file_def)
  from made1 one two three show ?thesis by (intro conjI) (simp_all only:)
qed

subsection \<open>C9: the single-wheel branch\<close>

lemma performs_single_body:
  "performs (bind (install_dependencies h v)
                  (\<lambda>u. bind (clean_previous v)
                    (\<lambda>u. bind (build_single_wheel h v)
                      (\<lambda>u. post_build_cleanup v)))) w
     [install_args h v, configure_args h v ''itk'', single_wheel_args h v, clean_args h v]"
proof -
  have "performs (bind (install_dependencies h v)
                  (\<lambda>u. bind (clean_previous v)
                    (\<lambda>u. bind (build_single_wheel h v)
                      (\<lambda>u. post_build_cleanup v)))) w
     ([install_args h v] @ [] @
        [configure_args h v ''itk'', single_wheel_args h v, clean_args h v] @ [])"
    by (intro performs_bind performs_build_single_wheel performs_quiet
          clean_previous_calls post_build_cleanup_calls)
       (simp add: install_dependencies_def performs_check_call)
  then show ?thesis by simp
qed

lemma performs_build_wheel_single:
  "performs (build_wheel h v True) w
     [install_args h v, configure_args h v ''itk'', single_wheel_args h v, clean_args h v]"
proof (cases "map_of (environ w) ''PATH''")
  case None
  then show ?thesis
    by (simp add: build_wheel_def performs_def raise_def)
next
  case (Some old_path)
  let ?kw = "[(''PATH'', Some (os_path_join (venv_dir h v) [''Scripts''] @ '':'' @ old_path))]"
  have "performs (push_env ?kw (bind (install_dependencies h v)
                  (\<lambda>u. bind (clean_previous v)
                    (\<lambda>u. bind (build_single_wheel h v)
                      (\<lambda>u. post_build_cleanup v))))) w
     [install_args h v, configure_args h v ''itk'', single_wheel_args h v, clean_args h v]"
    by (rule performs_push_env) (rule performs_single_body)
  with Some show ?thesis by (simp add: build_wheel_def performs_def)
qed

text \<open>
  C9. With \<open>single_wheel = True\<close>, \<open>build_wheel\<close> only adds to the log
  of programs started; what it adds is an initial part of: the installation
  of the requirements, one configure step with the component name
  \<open>itk\<close>, one \<open>bdist_wheel\<close> step, one \<open>clean\<close> step; and when
  \<open>build_wheel\<close> returns normally it is exactly these four, once each.
\<close>

theorem single_wheel_invocations:
  "prefix (calls w) (calls (snd (build_wheel h v True w)))
   \<and> prefix (map call_args (drop (length (calls w)) (calls (snd (build_wheel h v True w)))))
        [install_args h v, configure_args h v ''itk'', single_wheel_args h v, clean_args h v]
   \<and> (fst (build_wheel h v True w) = Inr () \<longrightarrow>
        map call_args (drop (length (calls w)) (calls (snd (build_wheel h v True w))))
        = [install_args h v, configure_args h v ''itk'', single_wheel_args h v, clean_args h v])"
  using performs_build_wheel_single [of h v w]
  by (auto simp: performs_def)

theorem single_wheel_invocations_witness:
  "fst (build_wheel single_host ''27-x64'' True manifest_world) = Inr ()
   \<and> map call_args (calls (snd (build_wheel single_host ''27-x64'' True manifest_world)))
     = [install_args single_host ''27-x64'', configure_args single_host ''27-x64'' ''itk'',
        single_wheel_args single_host ''27-x64'', clean_args single_host ''27-x64'']"
proof -
  have ok: "fst (build_wheel single_host ''27-x64'' True manifest_world) = Inr ()"
    by (simp add: single_host_sel manifest_world_def built_tree_def build_eval seps_def Let_def)
  have "calls manifest_world = []" by (simp add: manifest_world_def)
  with single_wheel_invocations [of manifest_world single_host "''27-x64''"] ok
  show ?thesis by simp
qed

subsection \<open>C2: the multiple-wheel branch\<close>

text \<open>
  What the branch does: after the query of the generator and the shared
  \<open>cmake\<close> and \<open>ninja\<close> pass, one configure, \<open>bdist_wheel\<close> and
  \<open>clean\<close> step for every character of the string that \<open>readline\<close>
  returned.
\<close>

lemma multiple_wheels_invocations:
  assumes "build_multiple_wheels h v w = (Inr (), w')"
  shows "map call_args (drop (length (calls w)) (calls w'))
         = [[python_executable h v, temp_name h], cmake_args h v, [ninja_executable h]]
           @ concat (map (\<lambda>c. [configure_args h v [c], wheel_args h v [c], clean_args h v])
                       (wheel_names_read h v w))"
  using performs_build_multiple_wheels [of h v w] assms
  by (auto simp: performs_def wheel_steps_def)

text \<open>
  C2. The claim is one configure and packaging pair per component name of
  the manifest. With the manifest holding the single name \<open>itk\<close> on its
  line, the run returns normally after four rounds, for the component names
  \<open>i\<close>, \<open>t\<close>, \<open>k\<close> and the newline character.
\<close>

theorem manifest_read_by_character:
  "fst (build_wheel multi_host ''27-x64'' False manifest_world) = Inr ()
   \<and> map call_args (calls (snd (build_wheel multi_host ''27-x64'' False manifest_world)))
     = [install_args multi_host ''27-x64'',
        [python_executable multi_host ''27-x64'', ''C:/tmpabc.py''],
        cmake_args multi_host ''27-x64'',
        [ninja_executable multi_host],
        configure_args multi_host ''27-x64'' ''i'',
        wheel_args multi_host ''27-x64'' ''i'',
        clean_args multi_host ''27-x64'',
        configure_args multi_host ''27-x64'' ''t'',
        wheel_args multi_host ''27-x64'' ''t'',
        clean_args multi_host ''27-x64'',
        configure_args multi_host ''27-x64'' ''k'',
        wheel_args multi_host ''27-x64'' ''k'',
        clean_args multi_host ''27-x64'',
        configure_args multi_host ''27-x64'' [CHR 0x0A],
        wheel_args multi_host ''27-x64'' [CHR 0x0A],
        clean_args multi_host ''27-x64'']"
  by (simp add: multi_host_sel manifest_world_def build_eval seps_def Let_def)

subsection \<open>C10: the separator in PATH\<close>

text \<open>
  C10. Whenever \<open>PATH\<close> is set, the first program \<open>build_wheel\<close>
  starts, in either mode and for every version, is the installation of the
  requirements, and it runs with \<open>PATH\<close> equal to the \<open>Scripts\<close>
  directory of the virtual environment, a colon, and the previous value of
  \<open>PATH\<close>.
\<close>

theorem path_joined_with_colon:
  assumes "map_of (environ w) ''PATH'' = Some old_path"
  shows "\<exists>c cs. calls (snd (build_wheel h v single_wheel w)) = calls w @ c # cs
           \<and> call_args c = install_args h v
           \<and> map_of (call_env c) ''PATH''
               = Some (os_path_join (venv_dir h v) [''Scripts''] @ '':'' @ old_path)"
proof -
  let ?new = "os_path_join (venv_dir h v) [''Scripts''] @ '':'' @ old_path"
  let ?w0 = "w\<lparr>environ := AList.update ''PATH'' ?new (environ w)\<rparr>"
  let ?rest = "\<lambda>u::unit. bind (clean_previous v)
                    (\<lambda>u. bind (if single_wheel then build_single_wheel h v
                                else build_multiple_wheels h v)
                      (\<lambda>u. post_build_cleanup v))"
  let ?c = "\<lparr>call_args = install_args h v, call_env = environ ?w0, call_cwd = cwd ?w0\<rparr>"
  obtain r1 w1 where inst: "install_dependencies h v ?w0 = (r1, w1)"
    by (cases "install_dependencies h v ?w0")
  then have c1: "calls w1 = calls w @ [?c]"
    by (auto simp: install_dependencies_def check_call_def started_def split: prod.splits if_splits)
  have env: "map_of (call_env ?c) ''PATH'' = Some ?new"
    by (simp add: update_conv')
  obtain r2 w2 where body: "bind (install_dependencies h v) ?rest ?w0 = (r2, w2)"
    by (cases "bind (install_dependencies h v) ?rest ?w0")
  have "\<exists>cs. calls w2 = calls w1 @ cs"
  proof (cases r1)
    case (Inl e)
    with inst body show ?thesis by (simp add: bind_def)
  next
    case (Inr u)
    from performs_build_wheel [of v single_wheel h w1] obtain L where
      "performs (?rest ()) w1 L" by blast
    with inst Inr body show ?thesis by (auto simp: performs_def bind_def)
  qed
  then obtain cs where c2: "calls w2 = calls w @ ?c # cs" using c1 by auto
  have "calls (snd (build_wheel h v single_wheel w)) = calls w2"
    using assms body
    by (auto simp: build_wheel_def push_env_def with_generator_def push_env_before_yield_def
        push_env_after_yield_def push_env_change_def bind_def Let_def
        split: sum.splits prod.splits)
  with c2 env show ?thesis by (intro exI [of _ ?c] exI [of _ cs]) simp
qed

theorem path_joined_with_colon_witness:
  "map_of (environ manifest_world) ''PATH'' = Some ''C:/bin''
   \<and> map_of (call_env (hd (calls (snd (build_wheel multi_host ''27-x64'' False manifest_world)))))
        ''PATH''
     = Some (''C:/IPP'' @ [CHR 0x5C] @ ''venv-27-x64'' @ [CHR 0x5C] @ ''Scripts:C:/bin'')"
proof -
  have path: "map_of (environ manifest_world) ''PATH'' = Some ''C:/bin''"
    by (simp add: manifest_world_def)
  have none: "calls manifest_world = []" by (simp add: manifest_world_def)
  have scripts: "os_path_join (venv_dir multi_host ''27-x64'') [''Scripts'']
      = ''C:/IPP'' @ [CHR 0x5C] @ ''venv-27-x64'' @ [CHR 0x5C] @ ''Scripts''"
    by (simp add: venv_dir_def multi_host_sel os_path_join_def join_step_def splitdrive_def
        seps_def sep_def)
  from path_joined_with_colon [OF path, of multi_host "''27-x64''" False] none scripts path
  show ?thesis by auto
qed

subsection \<open>C7: the clean-up after the build\<close>

































lemma cleanup_built_world:
  "post_build_cleanup ''27-x64'' built_world
   = (Inr (),
      built_world\<lparr>fs := Dir [(''C:'',
         Dir [(''P'', Dir [(''IPP'', Dir [(''ITK-win_27-x64'',
                Dir [(''Wrapping'', Dir []), (''ITKCommon.lib'', File [])])])])])]\<rparr>)"
  by (simp add: built_world_def built_tree_def build_eval seps_def Let_def)



end
